theory Spec2Isabelle
  imports Complex_Main "HOL-Library.Multiset" "HOL-Library.Log_Nat"
begin

section \<open>Python values used by the checkers\<close>

text \<open>
  Strings are modelled as lists of 8-bit characters holding ASCII text: the character
  classes below (\<open>str.strip\<close> whitespace, \<open>\d\<close>, \<open>\w\<close>, case mapping) are the ASCII
  part of Python's classes, and characters above 127 belong to none of them.

  A score is a Python float and is modelled as the real number it denotes.  The
  arithmetic of the checkers and of the aggregator is float64 arithmetic: every sum,
  product and quotient is rounded to the nearest float64, ties to the even mantissa
  (section "float64 arithmetic").  The quotient of the two set sizes in the similarity
  score is kept as the exact fraction; it is rounded where it enters a sum.
\<close>

datatype py_error =
    ValueError string
  | AttributeError string
  | IndexError string
  | RuntimeError string

fun error_str :: "py_error \<Rightarrow> string" where
  "error_str (ValueError m) = m"
| "error_str (AttributeError m) = m"
| "error_str (IndexError m) = m"
| "error_str (RuntimeError m) = m"

text \<open>The \<open>AttributeError\<close> of reading an attribute an object does not have.\<close>

definition no_attribute :: "string \<Rightarrow> string \<Rightarrow> py_error" where
  "no_attribute type_name attr =
     AttributeError ([CHR 0x27] @ type_name @ [CHR 0x27] @ '' object has no attribute ''
                     @ [CHR 0x27] @ attr @ [CHR 0x27])"

datatype pyval =
    PNone
  | PBool bool
  | PInt int
  | PNum real
  | PStr string
  | PList "pyval list"
  | PDict "(string \<times> pyval) list"

section \<open>float64 arithmetic\<close>

text \<open>
  A finite float64 is \<open>m * 2 ^ (e - 52)\<close> with an integer \<open>m\<close> below \<open>2 ^ 53\<close> and an
  exponent \<open>e\<close> from \<open>-1022\<close> on.  \<open>fl64 x\<close> is the float64 nearest to the real \<open>x\<close>,
  the tie going to the even \<open>m\<close>; it is the value of a float literal and the result every
  IEEE operation returns for the exact result \<open>x\<close>.  Overflow to infinity (from
  \<open>2 ^ 1024\<close> on) is outside the model; scores lie between 0 and 1.
\<close>

definition pow2 :: "int \<Rightarrow> real" where
  "pow2 e = (if 0 \<le> e then 2 ^ nat e else 1 / 2 ^ nat (- e))"

text \<open>For \<open>a > 0\<close>, the \<open>e\<close> with \<open>2 ^ e \<le> a < 2 ^ (e + 1)\<close>.\<close>

definition binary_exponent :: "real \<Rightarrow> int" where
  "binary_exponent a =
     (if 1 \<le> a then bitlen \<lfloor>a\<rfloor> - 1
      else let j = bitlen \<lfloor>1 / a\<rfloor> - 1
           in if a * pow2 j = 1 then - j else - j - 1)"

definition round_half_even :: "real \<Rightarrow> int" where
  "round_half_even x =
     (let f = \<lfloor>x\<rfloor>; d = x - real_of_int f
      in if d < 1 / 2 then f else if 1 / 2 < d then f + 1 else if even f then f else f + 1)"

definition fl64 :: "real \<Rightarrow> real" where
  "fl64 x =
     (if x = 0 then 0
      else let a = \<bar>x\<bar>;
               e = max (binary_exponent a) (- 1022);
               q = pow2 (e - 52)
           in sgn x * real_of_int (round_half_even (a / q)) * q)"

text \<open>
  \<open>a + b\<close>, \<open>a * b\<close> and \<open>a / b\<close> on floats.  The operands are float64 values, on which
  \<open>fl64\<close> is the identity; an integer operand is converted first, exactly for the small
  counts used here.
\<close>

definition fadd :: "real \<Rightarrow> real \<Rightarrow> real" where
  "fadd a b = fl64 (fl64 a + fl64 b)"

definition fmul :: "real \<Rightarrow> real \<Rightarrow> real" where
  "fmul a b = fl64 (fl64 a * fl64 b)"

definition fdiv :: "real \<Rightarrow> real \<Rightarrow> real" where
  "fdiv a b = fl64 (fl64 a / fl64 b)"

text \<open>
  \<open>np.add.reduce\<close> on a contiguous float64 array, which \<open>np.mean\<close> calls: the result
  starts as the identity 0 of \<open>add\<close> and takes the pairwise sum of the whole array (the
  loop \<open>DOUBLE_add\<close> runs \<open>*iop1 += DOUBLE_pairwise_sum(ip2, n, is2)\<close>).  Fewer than 8
  elements are added one by one; up to 128 elements are added into 8 accumulators, element
  \<open>i\<close> into accumulator \<open>i mod 8\<close>, which are combined as a tree before the elements
  after the last full block of 8 are added one by one; a longer array is split near the
  middle, at a multiple of 8.
\<close>

fun accumulate :: "real list \<Rightarrow> nat \<Rightarrow> real list \<Rightarrow> real list" where
  "accumulate r j [] = r"
| "accumulate r j (x # xs) = accumulate (r[j := fadd (r ! j) x]) ((j + 1) mod 8) xs"

definition unrolled_sum :: "real list \<Rightarrow> real" where
  "unrolled_sum a =
     (let n = length a;
          r = accumulate (take 8 a) 0 (take (n - n mod 8 - 8) (drop 8 a));
          res = fadd (fadd (fadd (r ! 0) (r ! 1)) (fadd (r ! 2) (r ! 3)))
                     (fadd (fadd (r ! 4) (r ! 5)) (fadd (r ! 6) (r ! 7)))
      in foldl fadd res (drop (n - n mod 8) a))"

function pairwise_sum :: "real list \<Rightarrow> real" where
  "pairwise_sum a =
     (let n = length a
      in if n < 8 then foldl fadd 0 a
         else if n \<le> 128 then unrolled_sum a
         else let n2 = n div 2 - (n div 2) mod 8
              in fadd (pairwise_sum (take n2 a)) (pairwise_sum (drop n2 a)))"
  by pat_completeness auto
termination
proof (relation "measure length")
  show "wf (measure length)" by simp
next
  fix a :: "real list" and x xa
  assume "x = length a" "\<not> x < 8" "\<not> x \<le> 128" "xa = x div 2 - x div 2 mod 8"
  then show "(take xa a, a) \<in> measure length" by simp
next
  fix a :: "real list" and x xa
  assume h: "x = length a" "\<not> x < 8" "\<not> x \<le> 128" "xa = x div 2 - x div 2 mod 8"
  have "x div 2 mod 8 < 8" by simp
  moreover have "64 \<le> x div 2" using h(3) by simp
  ultimately have "0 < xa" using h(4) by linarith
  then show "(drop xa a, a) \<in> measure length" using h(1,3) by simp
qed

definition np_add_reduce :: "real list \<Rightarrow> real" where
  "np_add_reduce a = fadd 0 (pairwise_sum a)"

text \<open>\<open>np.mean\<close> of a non-empty float64 array: the reduced sum divided by the count.\<close>

definition np_mean :: "real list \<Rightarrow> real" where
  "np_mean scores = fdiv (np_add_reduce scores) (real (length scores))"

text \<open>
  The built-in \<open>sum\<close> over floats adds from the left, starting from the integer 0, with
  a rounding after each addition (from Python 3.12 on it also compensates the rounding
  errors; the checks below take the implementation of \<open>sum\<close> as an argument).
\<close>

definition float_sum :: "real list \<Rightarrow> real" where
  "float_sum xs = foldl fadd 0 xs"

section \<open>Characters and strings\<close>

definition is_space :: "char \<Rightarrow> bool" where
  "is_space c = (let n = (of_char c :: nat) in (9 \<le> n \<and> n \<le> 13) \<or> (28 \<le> n \<and> n \<le> 32))"

definition is_digit :: "char \<Rightarrow> bool" where
  "is_digit c = (let n = (of_char c :: nat) in 48 \<le> n \<and> n \<le> 57)"

definition is_upper :: "char \<Rightarrow> bool" where
  "is_upper c = (let n = (of_char c :: nat) in 65 \<le> n \<and> n \<le> 90)"

definition is_lower :: "char \<Rightarrow> bool" where
  "is_lower c = (let n = (of_char c :: nat) in 97 \<le> n \<and> n \<le> 122)"

definition is_word :: "char \<Rightarrow> bool" where
  "is_word c = (is_digit c \<or> is_upper c \<or> is_lower c \<or> c = CHR ''_'')"

definition lower_char :: "char \<Rightarrow> char" where
  "lower_char c = (if is_upper c then char_of ((of_char c :: nat) + 32) else c)"

definition upper_char :: "char \<Rightarrow> char" where
  "upper_char c = (if is_lower c then char_of ((of_char c :: nat) - 32) else c)"

definition py_lower :: "string \<Rightarrow> string" where
  "py_lower s = map lower_char s"

definition py_upper :: "string \<Rightarrow> string" where
  "py_upper s = map upper_char s"

definition py_strip :: "string \<Rightarrow> string" where
  "py_strip s = rev (dropWhile is_space (rev (dropWhile is_space s)))"

text \<open>\<open>s.replace(c, "")\<close> for a one-character \<open>c\<close>.\<close>

definition py_remove :: "char \<Rightarrow> string \<Rightarrow> string" where
  "py_remove c s = filter (\<lambda>x. x \<noteq> c) s"

section \<open>\<open>base_checker.py\<close>: the similarity matcher\<close>

record ComplianceResult =
  check_name :: string
  passed :: bool
  score :: real
  details :: "(string \<times> pyval) list"
  errors :: "string list"

text \<open>
  \<open>_normalize_text_cached\<close>.  The \<open>lru_cache\<close> only memoises a pure function and is
  left out.
\<close>

definition normalize_text_cached :: "string \<Rightarrow> string" where
  "normalize_text_cached text =
     (if text = [] then []
      else py_remove (CHR ''_'') (py_remove (CHR ''-'') (py_remove (CHR '' '')
             (py_lower (py_strip text)))))"

definition calculate_similarity_score :: "string \<Rightarrow> string \<Rightarrow> real" where
  "calculate_similarity_score text1 text2 =
     (if text1 = [] \<or> text2 = [] then 0
      else
        let norm1 = normalize_text_cached text1;
            norm2 = normalize_text_cached text2
        in if norm1 = norm2 then 1
           else
             let set1 = set norm1;
                 set2 = set norm2;
                 intersection = card (set1 \<inter> set2);
                 union = card (set1 \<union> set2)
             in if union > 0 then real intersection / real union else 0)"

text \<open>\<open>max(xs)\<close> and \<open>xs.index(v)\<close>: both raise \<open>ValueError\<close> where they have no answer.\<close>

fun py_max :: "real list \<Rightarrow> py_error + real" where
  "py_max [] = Inl (ValueError ''max() arg is an empty sequence'')"
| "py_max (x # xs) = Inr (foldl max x xs)"

fun py_index :: "real list \<Rightarrow> real \<Rightarrow> py_error + nat" where
  "py_index [] v = Inl (ValueError ''value is not in list'')"
| "py_index (x # xs) v =
     (if x = v then Inr 0
      else case py_index xs v of Inl e \<Rightarrow> Inl e | Inr i \<Rightarrow> Inr (Suc i))"

definition vectorized_text_match ::
  "string \<Rightarrow> string list \<Rightarrow> real \<Rightarrow> py_error + (bool \<times> real \<times> string option)" where
  "vectorized_text_match target candidates threshold =
     (if target = [] \<or> candidates = [] then Inr (False, 0, None)
      else
        let similarities = map (calculate_similarity_score target) candidates
        in if similarities = [] then Inr (False, 0, None)
           else case py_max similarities of
                  Inl e \<Rightarrow> Inl e
                | Inr max_similarity \<Rightarrow>
                    (case py_index similarities max_similarity of
                       Inl e \<Rightarrow> Inl e
                     | Inr best_match_idx \<Rightarrow>
                         Inr (max_similarity \<ge> threshold, max_similarity,
                              Some (candidates ! best_match_idx))))"

text \<open>The default of the \<open>threshold\<close> parameter.\<close>

definition default_threshold :: real where
  "default_threshold = 8 / 10"

text \<open>
  \<open>_check_field_compliance\<close>.  The document value is \<open>None\<close> or a string and the
  reference values are strings or \<open>None\<close> (\<open>str(val)\<close> is then the identity).  The
  body runs inside \<open>try\<close>: an exception of the matcher becomes the failed result of the
  \<open>except\<close> branch.
\<close>

definition check_field_compliance ::
  "string \<Rightarrow> string option \<Rightarrow> string option list \<Rightarrow> ComplianceResult" where
  "check_field_compliance field_name document_value excel_values =
     (if document_value = None \<or> document_value = Some [] then
        \<lparr>check_name = field_name @ ''_validation'', passed = False, score = 0,
         details = [(''error'', PStr (field_name @ '' not found in document''))],
         errors = [field_name @ '' not found in document'']\<rparr>
      else if excel_values = [] then
        \<lparr>check_name = field_name @ ''_validation'', passed = False, score = 0,
         details = [(''error'', PStr (field_name @ '' not found in Excel data''))],
         errors = [field_name @ '' not found in Excel data'']\<rparr>
      else
        let doc_str = the document_value;
            excel_strs = map the (filter (\<lambda>val. val \<noteq> None) excel_values)
        in case vectorized_text_match doc_str excel_strs default_threshold of
             Inr (is_match, sc, best_match) \<Rightarrow>
               \<lparr>check_name = field_name @ ''_validation'', passed = is_match, score = sc,
                details = [(''document_value'', PStr doc_str),
                           (''excel_values'', PList (map PStr excel_strs)),
                           (''best_match'', (case best_match of None \<Rightarrow> PNone | Some b \<Rightarrow> PStr b)),
                           (''similarity_score'', PNum sc)],
                errors = []\<rparr>
           | Inl e \<Rightarrow>
               (let error_msg = ''Error checking '' @ field_name @ '': '' @ error_str e
                in \<lparr>check_name = field_name @ ''_validation'', passed = False, score = 0,
                    details = [(''error'', PStr error_msg)],
                    errors = [error_msg]\<rparr>))"

section \<open>\<open>base_checker.py\<close>: the aggregator\<close>

text \<open>\<open>COMPLIANCE_THRESHOLD\<close> of \<open>config.py\<close>.\<close>

definition COMPLIANCE_THRESHOLD :: real where
  "COMPLIANCE_THRESHOLD = fl64 (6 / 10)"

text \<open>
  The dictionary \<open>_calculate_overall_score\<close> returns.  The branch for an empty result list
  has no \<open>pass_rate\<close> and no \<open>individual_scores\<close> key, hence the options.  A Python
  dictionary compares equal to another whatever the insertion order, so
  \<open>individual_scores\<close> is a finite map; a later entry with the same key replaces the
  earlier one.
\<close>

record overall_statistics =
  overall_score :: real
  pass_rate :: "real option"
  passed_checks :: nat
  total_checks :: nat
  compliance_level :: string
  individual_scores :: "(string \<rightharpoonup> real) option"

definition calculate_overall_score :: "ComplianceResult list \<Rightarrow> overall_statistics" where
  "calculate_overall_score results =
     (if results = [] then
        \<lparr>overall_score = 0, pass_rate = None, passed_checks = 0, total_checks = 0,
         compliance_level = ''Non-compliant'', individual_scores = None\<rparr>
      else
        let scores = map score results;
            passed_count = length (filter passed results);
            overall = np_mean scores;
            rate = fdiv (real passed_count) (real (length results));
            level = (if overall \<ge> fl64 (9 / 10) then ''Fully Compliant''
                     else if overall \<ge> COMPLIANCE_THRESHOLD then ''Compliant''
                     else if overall \<ge> fl64 (4 / 10) then ''Partially Compliant''
                     else ''Non-compliant'')
        in \<lparr>overall_score = overall, pass_rate = Some rate, passed_checks = passed_count,
            total_checks = length results, compliance_level = level,
            individual_scores =
              Some (foldl (\<lambda>m result. m(check_name result \<mapsto> score result)) Map.empty results)\<rparr>)"

section \<open>\<open>base_checker.py\<close>: running the checks\<close>

text \<open>
  A check function takes no argument and reads inputs that do not change during a run, so
  it is modelled by its \<open>__name__\<close> and by what a call of it does: it returns a
  \<open>ComplianceResult\<close>, returns a dictionary in the legacy format, returns \<open>None\<close>, or
  raises.
\<close>

record legacy_result =
  legacy_passed :: "bool option"
  legacy_score :: "real option"
  legacy_errors :: "string list option"
  legacy_rest :: "(string \<times> pyval) list"

datatype check_outcome =
    Returns ComplianceResult
  | ReturnsLegacy legacy_result
  | ReturnsNone
  | Raises py_error

type_synonym check_function = "string \<times> check_outcome"

text \<open>The legacy dictionary itself, as it is stored under \<open>details\<close>.\<close>

definition legacy_dict :: "legacy_result \<Rightarrow> (string \<times> pyval) list" where
  "legacy_dict d =
     (case legacy_passed d of None \<Rightarrow> [] | Some b \<Rightarrow> [(''passed'', PBool b)]) @
     (case legacy_score d of None \<Rightarrow> [] | Some x \<Rightarrow> [(''score'', PNum x)]) @
     (case legacy_errors d of None \<Rightarrow> [] | Some es \<Rightarrow> [(''errors'', PList (map PStr es))]) @
     legacy_rest d"

text \<open>
  The body of the \<open>as_completed\<close> loop of \<open>_run_checks_parallel\<close> for one future:
  \<open>future.result()\<close> re-raises what the check raised, and \<open>result.get\<close> on \<open>None\<close>
  raises \<open>AttributeError\<close>; the \<open>except\<close> branch turns both into a failed result.
\<close>

definition failed_result :: "string \<Rightarrow> py_error \<Rightarrow> ComplianceResult" where
  "failed_result name e =
     \<lparr>check_name = name, passed = False, score = 0,
      details = [(''error'', PStr (error_str e))], errors = [error_str e]\<rparr>"

fun collect_result :: "check_function \<Rightarrow> ComplianceResult" where
  "collect_result (name, Returns result) = result"
| "collect_result (name, ReturnsLegacy result) =
     \<lparr>check_name = name,
      passed = (case legacy_passed result of None \<Rightarrow> False | Some b \<Rightarrow> b),
      score = (case legacy_score result of None \<Rightarrow> 0 | Some x \<Rightarrow> x),
      details = legacy_dict result,
      errors = (case legacy_errors result of None \<Rightarrow> [] | Some es \<Rightarrow> es)\<rparr>"
| "collect_result (name, ReturnsNone) =
     failed_result name (no_attribute ''NoneType'' ''get'')"
| "collect_result (name, Raises e) = failed_result name e"

text \<open>
  \<open>_run_checks_parallel\<close>.  The results are appended in the order in which the futures
  complete, which the scheduler decides: \<open>completion\<close> lists the positions of the
  submitted checks in that order, each position once.  \<open>ThreadPoolExecutor\<close> raises
  \<open>ValueError\<close> for a pool without workers.
\<close>

definition run_checks_parallel ::
  "check_function list \<Rightarrow> int \<Rightarrow> nat list \<Rightarrow> py_error + ComplianceResult list" where
  "run_checks_parallel check_functions max_workers completion =
     (if max_workers \<le> 0 then Inl (ValueError ''max_workers must be greater than 0'')
      else Inr (map (\<lambda>i. collect_result (check_functions ! i)) completion))"

definition completion_order :: "nat \<Rightarrow> nat list \<Rightarrow> bool" where
  "completion_order n completion = (mset completion = mset [0..<n])"

text \<open>
  The sequential branch of \<open>run_all_checks\<close> is the list comprehension
  \<open>[check_func() for check_func in check_functions]\<close>: it keeps whatever object a check
  returns, and the first check that raises ends it.
\<close>

datatype check_object =
    ResultObject ComplianceResult
  | DictObject legacy_result
  | NoneObject

fun call_checks :: "check_function list \<Rightarrow> py_error + check_object list" where
  "call_checks [] = Inr []"
| "call_checks ((name, outcome) # rest) =
     (case outcome of
        Raises e \<Rightarrow> Inl e
      | other \<Rightarrow>
          (case call_checks rest of
             Inl e \<Rightarrow> Inl e
           | Inr objects \<Rightarrow>
               Inr ((case other of
                       Returns result \<Rightarrow> ResultObject result
                     | ReturnsLegacy result \<Rightarrow> DictObject result
                     | _ \<Rightarrow> NoneObject) # objects)))"

text \<open>
  Reading \<open>result.score\<close> (the first attribute \<open>_calculate_overall_score\<close> touches) of
  every collected object, in order.
\<close>

fun as_results :: "check_object list \<Rightarrow> py_error + ComplianceResult list" where
  "as_results [] = Inr []"
| "as_results (ResultObject result # rest) =
     (case as_results rest of Inl e \<Rightarrow> Inl e | Inr results \<Rightarrow> Inr (result # results))"
| "as_results (DictObject d # rest) =
     Inl (no_attribute ''dict'' ''score'')"
| "as_results (NoneObject # rest) =
     Inl (no_attribute ''NoneType'' ''score'')"

record legacy_check =
  lc_passed :: bool
  lc_score :: real
  lc_details :: "(string \<times> pyval) list"
  lc_errors :: "string list"

record run_metadata =
  total_processing_time :: real
  parallel_execution :: bool
  max_workers_used :: int

record run_report =
  individual_checks :: "string \<rightharpoonup> legacy_check"
  overall_statistics :: overall_statistics
  metadata :: "run_metadata option"
  error :: "string option"

definition error_report :: "py_error \<Rightarrow> run_report" where
  "error_report e =
     \<lparr>individual_checks = Map.empty,
      overall_statistics =
        \<lparr>overall_score = 0, pass_rate = None, passed_checks = 0, total_checks = 0,
         compliance_level = ''Error'', individual_scores = None\<rparr>,
      metadata = None,
      error = Some (error_str e)\<rparr>"

definition legacy_results :: "ComplianceResult list \<Rightarrow> (string \<rightharpoonup> legacy_check)" where
  "legacy_results results =
     foldl (\<lambda>m result. m(check_name result \<mapsto>
              \<lparr>lc_passed = passed result, lc_score = score result,
               lc_details = details result, lc_errors = errors result\<rparr>))
           Map.empty results"

text \<open>
  \<open>run_all_checks\<close>, over the list \<open>get_check_functions()\<close> returns.  Everything runs
  inside one \<open>try\<close>; its \<open>except\<close> branch returns the report whose level is \<open>Error\<close>.
\<close>

definition run_all_checks ::
  "check_function list \<Rightarrow> bool \<Rightarrow> int \<Rightarrow> nat list \<Rightarrow> run_report" where
  "run_all_checks check_functions parallel max_workers completion =
     (case (if parallel \<and> length check_functions > 1
            then run_checks_parallel check_functions max_workers completion
            else (case call_checks check_functions of
                    Inl e \<Rightarrow> Inl e
                  | Inr objects \<Rightarrow> as_results objects)) of
        Inl e \<Rightarrow> error_report e
      | Inr results \<Rightarrow>
          \<lparr>individual_checks = legacy_results results,
           overall_statistics = calculate_overall_score results,
           metadata = Some \<lparr>total_processing_time = 0, parallel_execution = parallel,
                            max_workers_used = (if parallel then max_workers else 1)\<rparr>,
           error = None\<rparr>)"

section \<open>\<open>docx_compliance.py\<close> and \<open>pptx_compliance.py\<close>: the modular checkers\<close>

text \<open>
  \<open>excel_data\<close> maps a field name to the list of its reference values; the sub-dictionary
  \<open>first_page_data\<close> (or \<open>first_slide_data\<close>) maps a field name to the extracted string,
  where a missing key and a stored \<open>None\<close> read the same through \<open>.get\<close>.
\<close>

type_synonym excel_data = "string \<rightharpoonup> string option list"
type_synonym field_data = "string \<rightharpoonup> string"

text \<open>One block \<open>if key in self.excel_data and self.excel_data[key]: field_checks.append(...)\<close>.\<close>

definition field_check_if :: "excel_data \<Rightarrow> field_data \<Rightarrow> string \<Rightarrow> ComplianceResult list" where
  "field_check_if excel page key =
     (case excel key of
        None \<Rightarrow> []
      | Some values \<Rightarrow>
          if values = [] then [] else [check_field_compliance key (page key) values])"

definition metadata_field_checks :: "excel_data \<Rightarrow> field_data \<Rightarrow> ComplianceResult list" where
  "metadata_field_checks excel page =
     field_check_if excel page ''business_app_id'' @
     field_check_if excel page ''enterprise_release_id'' @
     field_check_if excel page ''project_name'' @
     field_check_if excel page ''task_id''"

definition field_checks_details :: "ComplianceResult list \<Rightarrow> (string \<times> pyval) list" where
  "field_checks_details field_checks =
     [(''field_checks'', PDict (map (\<lambda>check. (check_name check, PDict (details check))) field_checks)),
      (''total_fields_checked'', PInt (int (length field_checks))),
      (''fields_passed'', PInt (int (length (filter passed field_checks))))]"

text \<open>
  \<open>_check_first_page_compliance\<close> of \<open>docx_compliance.py\<close>; \<open>py_sum\<close> is the built-in
  \<open>sum\<close>.
\<close>

definition check_first_page_compliance ::
  "(real list \<Rightarrow> real) \<Rightarrow> excel_data \<Rightarrow> field_data \<Rightarrow> ComplianceResult" where
  "check_first_page_compliance py_sum excel first_page_data =
     (let field_checks = metadata_field_checks excel first_page_data;
          average_score = (if field_checks \<noteq> []
                           then fdiv (py_sum (map score field_checks))
                                     (real (length field_checks))
                           else 0);
          all_passed = (if field_checks \<noteq> [] then list_all passed field_checks else False)
      in \<lparr>check_name = ''first_page_validation'', passed = all_passed, score = average_score,
          details = field_checks_details field_checks, errors = []\<rparr>)"

text \<open>
  \<open>_check_first_slide_compliance\<close> of \<open>pptx_compliance.py\<close>: the same computation behind
  the \<open>has_content\<close> gate.
\<close>

definition check_first_slide_compliance ::
  "(real list \<Rightarrow> real) \<Rightarrow> excel_data \<Rightarrow> bool \<Rightarrow> field_data \<Rightarrow> ComplianceResult" where
  "check_first_slide_compliance py_sum excel has_content first_slide_data =
     (if \<not> has_content then
        \<lparr>check_name = ''first_slide_validation'', passed = False, score = 0,
         details = [(''error'', PStr ''First slide has no content'')],
         errors = [''First slide has no content'']\<rparr>
      else
        let field_checks = metadata_field_checks excel first_slide_data;
            average_score = (if field_checks \<noteq> []
                             then fdiv (py_sum (map score field_checks))
                                       (real (length field_checks))
                             else 0);
            all_passed = (if field_checks \<noteq> [] then list_all passed field_checks else False)
        in \<lparr>check_name = ''first_slide_validation'', passed = all_passed, score = average_score,
            details = field_checks_details field_checks @ [(''slide_has_content'', PBool has_content)],
            errors = []\<rparr>)"

text \<open>
  \<open>_check_table_of_contents_compliance\<close> of \<open>docx_compliance.py\<close>, over the two flags it
  reads from \<open>table_of_contents\<close> (each \<open>False\<close> when missing).
\<close>

definition check_table_of_contents_compliance :: "bool \<Rightarrow> bool \<Rightarrow> ComplianceResult" where
  "check_table_of_contents_compliance has_toc has_scope_section =
     (let score0 = (0 :: real);
          errors0 = [];
          score1 = (if has_toc then fadd score0 (fl64 (6 / 10)) else score0);
          errors1 = (if has_toc then errors0 else errors0 @ [''Table of contents not found'']);
          score2 = (if has_scope_section then fadd score1 (fl64 (4 / 10)) else score1);
          errors2 = (if has_scope_section then errors1
                     else errors1 @ [''Section 3.3 '' @ [CHR 0x22] @ ''In Scope'' @ [CHR 0x22] @ '' not found'']);
          passed2 = (score2 \<ge> fl64 (8 / 10))
      in \<lparr>check_name = ''table_of_contents_validation'', passed = passed2, score = score2,
          details = [(''has_table_of_contents'', PBool has_toc),
                     (''has_scope_section'', PBool has_scope_section),
                     (''requirements_met'', PInt (2 - int (length errors2)))],
          errors = errors2\<rparr>)"

section \<open>\<open>smart_compliance_checker_complete_Version2.py\<close>: patterns\<close>

text \<open>
  The regular expressions of this file are translated piece by piece.  A piece maps the
  text at the current position to the list of its matches in the order in which Python's
  backtracking matcher tries them (a greedy repetition tries the longest first), each
  with the text that is left; a pattern is the sequence of its pieces, and the match
  found is the first of the list.
\<close>

definition first_match :: "'a list \<Rightarrow> 'a option" where
  "first_match ms = (case ms of [] \<Rightarrow> None | m # _ \<Rightarrow> Some m)"

definition rx_char :: "char \<Rightarrow> string \<Rightarrow> string list" where
  "rx_char c s = (case s of [] \<Rightarrow> [] | x # r \<Rightarrow> if x = c then [r] else [])"

text \<open>A literal under \<open>re.IGNORECASE\<close>.\<close>

definition rx_literal_ci :: "string \<Rightarrow> string \<Rightarrow> string list" where
  "rx_literal_ci lit s =
     (if length lit \<le> length s \<and> py_lower (take (length lit) s) = py_lower lit
      then [drop (length lit) s] else [])"

text \<open>\<open>\d{n}\<close> and \<open>\d{1,2}\<close>, with the digits matched.\<close>

definition rx_digits :: "nat \<Rightarrow> string \<Rightarrow> (string \<times> string) list" where
  "rx_digits n s =
     (if n \<le> length s \<and> list_all is_digit (take n s) then [(take n s, drop n s)] else [])"

definition rx_digits_1_2 :: "string \<Rightarrow> (string \<times> string) list" where
  "rx_digits_1_2 s = rx_digits 2 s @ rx_digits 1 s"

text \<open>\<open>c*\<close>, \<open>c+\<close> and \<open>c?\<close> for a character class \<open>c\<close>.\<close>

definition rx_star :: "(char \<Rightarrow> bool) \<Rightarrow> string \<Rightarrow> string list" where
  "rx_star cls s = map (\<lambda>k. drop k s) (rev [0..<Suc (length (takeWhile cls s))])"

definition rx_plus :: "(char \<Rightarrow> bool) \<Rightarrow> string \<Rightarrow> string list" where
  "rx_plus cls s = map (\<lambda>k. drop k s) (rev [1..<Suc (length (takeWhile cls s))])"

definition rx_opt :: "(char \<Rightarrow> bool) \<Rightarrow> string \<Rightarrow> string list" where
  "rx_opt cls s = (case s of [] \<Rightarrow> [[]] | x # r \<Rightarrow> if cls x then [r, x # r] else [x # r])"

text \<open>
  \<open>\b\<close>: the character before the position is a word character and the one after it is
  not, or the other way round; the ends of the text count as non-word.
\<close>

definition rx_boundary :: "bool \<Rightarrow> string \<Rightarrow> bool" where
  "rx_boundary prev_word s = (prev_word \<noteq> (case s of [] \<Rightarrow> False | c # _ \<Rightarrow> is_word c))"

text \<open>\<open>$\<close> without \<open>re.MULTILINE\<close>: the end of the text, or just before a final newline.\<close>

definition rx_end :: "string \<Rightarrow> bool" where
  "rx_end s = (s = [] \<or> s = [CHR 0x0A])"

text \<open>
  \<open>pattern.search(text) is not None\<close> for a pattern that looks at the character before the
  position, and \<open>pattern.findall(text)\<close> for a pattern with one group that never matches
  the empty text: the scan goes on after the end of each match.
\<close>

fun search_from :: "(bool \<Rightarrow> string \<Rightarrow> bool) \<Rightarrow> bool \<Rightarrow> string \<Rightarrow> bool" where
  "search_from rx prev_word [] = rx prev_word []"
| "search_from rx prev_word (c # cs) = (rx prev_word (c # cs) \<or> search_from rx (is_word c) cs)"

definition re_search :: "(bool \<Rightarrow> string \<Rightarrow> bool) \<Rightarrow> string \<Rightarrow> bool" where
  "re_search rx s = search_from rx False s"

fun findall_from :: "(string \<Rightarrow> (string \<times> string) list) \<Rightarrow> nat \<Rightarrow> string \<Rightarrow> string list" where
  "findall_from rx skip [] = []"
| "findall_from rx (Suc skip) (c # cs) = findall_from rx skip cs"
| "findall_from rx 0 (c # cs) =
     (case rx (c # cs) of
        [] \<Rightarrow> findall_from rx 0 cs
      | (captured, rest) # _ \<Rightarrow> captured # findall_from rx (length cs - length rest) cs)"

definition re_findall :: "(string \<Rightarrow> (string \<times> string) list) \<Rightarrow> string \<Rightarrow> string list" where
  "re_findall rx s = findall_from rx 0 s"

text \<open>\<open>(\d{1,2})/(\d{1,2})/(\d{4})\<close>, with its three groups.\<close>

definition rx_date :: "string \<Rightarrow> ((string \<times> string \<times> string) \<times> string) list" where
  "rx_date s =
     [((month, day, year), r5).
        (month, r1) \<leftarrow> rx_digits_1_2 s,
        r2 \<leftarrow> rx_char (CHR ''/'') r1,
        (day, r3) \<leftarrow> rx_digits_1_2 r2,
        r4 \<leftarrow> rx_char (CHR ''/'') r3,
        (year, r5) \<leftarrow> rx_digits 4 r4]"

text \<open>\<open>OptimizedPatterns.DATE_GENERAL\<close>: the same pattern as one group.\<close>

definition DATE_GENERAL :: "string \<Rightarrow> (string \<times> string) list" where
  "DATE_GENERAL s =
     map (\<lambda>((month, day, year), rest). (month @ ''/'' @ day @ ''/'' @ year, rest)) (rx_date s)"

text \<open>\<open>OptimizedPatterns.DATE_IMPLEMENTATION\<close>:
  \<open>Implementation\s+Date[:\s]*(\d{1,2}/\d{1,2}/\d{4})\<close>, ignoring case.\<close>

definition DATE_IMPLEMENTATION :: "string \<Rightarrow> (string \<times> string) list" where
  "DATE_IMPLEMENTATION s =
     [m.
        r1 \<leftarrow> rx_literal_ci ''Implementation'' s,
        r2 \<leftarrow> rx_plus is_space r1,
        r3 \<leftarrow> rx_literal_ci ''Date'' r2,
        r4 \<leftarrow> rx_star (\<lambda>c. c = CHR '':'' \<or> is_space c) r3,
        m \<leftarrow> DATE_GENERAL r4]"

text \<open>\<open>\b(?:w1|w2|...)\b\<close>, ignoring case, for words that start and end with a letter.\<close>

definition rx_words :: "string list \<Rightarrow> bool \<Rightarrow> string \<Rightarrow> bool" where
  "rx_words ws prev_word s =
     (rx_boundary prev_word s \<and>
      list_ex (rx_boundary True) [r. w \<leftarrow> ws, r \<leftarrow> rx_literal_ci w s])"

text \<open>\<open>\b12\.?\s*(?:milestones|deliverables)\b\<close>, ignoring case.\<close>

definition rx_section_12 :: "bool \<Rightarrow> string \<Rightarrow> bool" where
  "rx_section_12 prev_word s =
     (rx_boundary prev_word s \<and>
      list_ex (rx_boundary True)
        [r4.
           r1 \<leftarrow> rx_literal_ci ''12'' s,
           r2 \<leftarrow> rx_opt (\<lambda>c. c = CHR ''.'') r1,
           r3 \<leftarrow> rx_star is_space r2,
           w \<leftarrow> [''milestones'', ''deliverables''],
           r4 \<leftarrow> rx_literal_ci w r3])"

section \<open>Version 2: \<open>normalize_date\<close>\<close>

text \<open>\<open>int(s)\<close> for a string of decimal digits, and \<open>str(n)\<close>.\<close>

definition digit_val :: "char \<Rightarrow> nat" where
  "digit_val c = of_char c - 48"

definition py_int :: "string \<Rightarrow> nat" where
  "py_int s = foldl (\<lambda>n c. 10 * n + digit_val c) 0 s"

definition digit_char :: "nat \<Rightarrow> char" where
  "digit_char d = char_of (48 + d)"

fun py_str_nat :: "nat \<Rightarrow> string" where
  "py_str_nat n = (if n < 10 then [digit_char n] else py_str_nat (n div 10) @ [digit_char (n mod 10)])"

text \<open>
  \<open>normalize_date\<close>.  \<open>re.match\<close> anchors the pattern at the start of the stripped text
  and does not look at what follows the year.  Nothing in the \<open>try\<close> block raises on a
  string.
\<close>

definition normalize_date :: "string \<Rightarrow> string" where
  "normalize_date date_str =
     (if date_str = [] then date_str
      else
        let date_str' = py_strip date_str
        in case first_match (rx_date date_str') of
             Some ((month, day, year), rest) \<Rightarrow>
               py_str_nat (py_int month) @ ''/'' @ py_str_nat (py_int day) @ ''/'' @ year
           | None \<Rightarrow> date_str')"

section \<open>Version 2: the document checker\<close>

text \<open>
  The \<open>ComplianceResult\<close> of this file has no name field.  Its \<open>details\<close>, \<open>expected\<close>
  and \<open>actual\<close> fields are display texts built from the same data and are not modelled.
\<close>

record ComplianceResultV2 =
  passedV2 :: bool
  scoreV2 :: real
  sub_results :: "(string \<times> pyval) list option"

text \<open>
  \<open>_validate_id_format\<close>.  A \<open>re.match(...) and ...\<close> is read for its truth value, as the
  caller does.
\<close>

definition match_release :: "string \<Rightarrow> bool" where
  "match_release doc_value =
     list_ex rx_end [r2. r1 \<leftarrow> rx_literal_ci ''RLSE'' doc_value, (d, r2) \<leftarrow> rx_digits 7 r1]"

definition match_business_app_id :: "string \<Rightarrow> bool" where
  "match_business_app_id doc_value =
     list_ex rx_end [r1. (d, r1) \<leftarrow> rx_digits 8 doc_value]"

definition match_clarity_project_id :: "string \<Rightarrow> bool" where
  "match_clarity_project_id doc_value =
     list_ex rx_end [r2. r1 \<leftarrow> rx_literal_ci ''PRJ0'' doc_value, (d, r2) \<leftarrow> rx_digits 4 r1]"

definition match_enterprise_release_id :: "string \<Rightarrow> bool" where
  "match_enterprise_release_id doc_value =
     (rx_boundary False doc_value \<and>
      list_ex (rx_boundary True)
        [r4.
           (y, r1) \<leftarrow> rx_digits 4 doc_value,
           r2 \<leftarrow> rx_char (CHR ''.'') r1,
           r3 \<leftarrow> rx_literal_ci ''M'' r2,
           (n, r4) \<leftarrow> rx_digits 2 r3])"

definition validate_id_format :: "string \<Rightarrow> string \<Rightarrow> string \<Rightarrow> bool" where
  "validate_id_format field_type excel_value doc_value =
     (if py_lower excel_value = py_lower doc_value then True
      else if field_type = ''release'' then
        match_release doc_value \<and> py_upper excel_value = py_upper doc_value
      else if field_type = ''business_app_id'' then
        match_business_app_id doc_value \<and> excel_value = doc_value
      else if field_type = ''clarity_project_id'' then
        match_clarity_project_id doc_value \<and> py_upper excel_value = py_upper doc_value
      else if field_type = ''enterprise_release_id'' then
        match_enterprise_release_id doc_value \<and> py_upper excel_value = py_upper doc_value
      else py_lower excel_value = py_lower doc_value)"

text \<open>\<open>for x in xs: body\<close> over a state, where the body may raise.\<close>

fun for_each :: "('a \<Rightarrow> 's \<Rightarrow> py_error + 's) \<Rightarrow> 'a list \<Rightarrow> 's \<Rightarrow> py_error + 's" where
  "for_each body [] s = Inr s"
| "for_each body (x # xs) s =
     (case body x s of Inl e \<Rightarrow> Inl e | Inr s' \<Rightarrow> for_each body xs s')"

definition field_mappings :: "(string \<times> string \<times> string) list" where
  "field_mappings =
     [(''business_application'', ''application_name'', ''Business Application''),
      (''business_app_id'', ''application_id'', ''Application ID''),
      (''clarity_project_id'', ''project_id'', ''Project ID''),
      (''project_name'', ''project_name'', ''Project Name''),
      (''release'', ''release'', ''Release''),
      (''enterprise_release_id'', ''enterprise_release_id'', ''Enterprise Release ID'')]"

definition opt_pyval :: "string option \<Rightarrow> pyval" where
  "opt_pyval v = (case v of None \<Rightarrow> PNone | Some s \<Rightarrow> PStr s)"

definition truthy :: "string option \<Rightarrow> bool" where
  "truthy v = (v \<noteq> None \<and> v \<noteq> Some [])"

text \<open>
  One turn of the loop of \<open>_check_first_page_compliance\<close> over the state
  \<open>(matches, field_results)\<close>.  \<open>self.excel_data.get(excel_field, [None])[0]\<close> raises
  \<open>IndexError\<close> on an empty list.
\<close>

definition first_page_field ::
  "excel_data \<Rightarrow> field_data \<Rightarrow> string \<times> string \<times> string
     \<Rightarrow> nat \<times> (string \<times> pyval) list \<Rightarrow> py_error + (nat \<times> (string \<times> pyval) list)" where
  "first_page_field excel first_page_data mapping state =
     (let (excel_field, doc_field, display_name) = mapping;
          (matches, field_results) = state;
          values = (case excel excel_field of None \<Rightarrow> [None] | Some vs \<Rightarrow> vs)
      in case values of
        [] \<Rightarrow> Inl (IndexError ''list index out of range'')
      | excel_value # _ \<Rightarrow>
          let doc_value = first_page_data doc_field;
              is_match = (truthy excel_value \<and> truthy doc_value \<and>
                          validate_id_format excel_field (py_strip (the excel_value))
                            (py_strip (the doc_value)));
              status = (if truthy excel_value \<and> truthy doc_value
                        then (if is_match then ''match'' else ''mismatch'')
                        else if \<not> truthy excel_value then ''missing_excel''
                        else if \<not> truthy doc_value then ''missing_document''
                        else ''missing'');
              field_result = PDict [(''expected'', opt_pyval excel_value),
                                    (''actual'', opt_pyval doc_value),
                                    (''match'', PBool is_match),
                                    (''status'', PStr status)]
          in Inr (if is_match then Suc matches else matches,
                  field_results @ [(display_name, field_result)]))"

definition check_first_page_compliance_V2 :: "excel_data \<Rightarrow> field_data \<Rightarrow> ComplianceResultV2" where
  "check_first_page_compliance_V2 excel first_page_data =
     (let total_fields = length field_mappings
      in case for_each (first_page_field excel first_page_data) field_mappings (0, []) of
           Inl e \<Rightarrow> \<lparr>passedV2 = False, scoreV2 = 0, sub_results = None\<rparr>
         | Inr (matches, field_results) \<Rightarrow>
             let score' = (if total_fields > 0 then fdiv (real matches) (real total_fields) else 0);
                 passed' = (score' \<ge> fl64 (6 / 10))
             in \<lparr>passedV2 = passed', scoreV2 = score', sub_results = Some field_results\<rparr>)"

text \<open>
  \<open>OptimizedDocxAnalyzer._check_table_of_contents\<close>.  The verdict of each
  \<open>pattern.search(document_text)\<close> is an argument: \<open>header_found\<close> for the header
  pattern, \<open>section_found\<close> for the pattern of each required section.
\<close>

definition REQUIRED_TOC_SECTIONS :: "(string \<times> string \<times> string) list" where
  "REQUIRED_TOC_SECTIONS =
     [(''non_functional_requirement'', ''3.3 - Non Functional Requirement'',
         ''Section 3.3 - Non Functional Requirements''),
      (''in_scope'', ''3.4 - In Scope'', ''Section 3.4 - In Scope''),
      (''out_of_scope'', ''3.5 - Out of Scope'', ''Section 3.5 - Out of Scope''),
      (''test_execution'', ''4.1 - Test Execution'', ''Section 4.1 - Test Execution''),
      (''milestones'', ''12. Milestones/Deliverables'', ''Section 12 - Milestones/Deliverables'')]"

record toc_data =
  has_table_of_contents :: bool
  has_comprehensive_toc :: bool
  toc_compliance_percentage :: real
  found_sections_count :: nat
  total_sections_count :: nat
  required_sections :: "(string \<times> pyval) list"

definition check_table_of_contents :: "bool \<Rightarrow> (string \<Rightarrow> bool) \<Rightarrow> toc_data" where
  "check_table_of_contents header_found section_found =
     (let total = length REQUIRED_TOC_SECTIONS;
          found_sections = length (filter (\<lambda>(section_key, name, description). section_found section_key)
                                      REQUIRED_TOC_SECTIONS)
      in \<lparr>has_table_of_contents = header_found,
          has_comprehensive_toc = (real found_sections \<ge> fmul (real total) (fl64 (6 / 10))),
          toc_compliance_percentage = fmul (fdiv (real found_sections) (real total)) 100,
          found_sections_count = found_sections,
          total_sections_count = total,
          required_sections =
            map (\<lambda>(section_key, name, description).
                   (section_key, PDict [(''found'', PBool (section_found section_key)),
                                        (''name'', PStr name),
                                        (''description'', PStr description)]))
                REQUIRED_TOC_SECTIONS\<rparr>)"

text \<open>
  \<open>OptimizedDocxComplianceChecker._check_table_of_contents_compliance\<close>; \<open>None\<close> stands for
  a document without the \<open>table_of_contents\<close> entry, where every \<open>.get\<close> takes its default.
\<close>

definition check_table_of_contents_compliance_V2 :: "toc_data option \<Rightarrow> ComplianceResultV2" where
  "check_table_of_contents_compliance_V2 toc =
     (let has_toc = (case toc of None \<Rightarrow> False | Some t \<Rightarrow> has_table_of_contents t);
          compliance_percentage = (case toc of None \<Rightarrow> 0 | Some t \<Rightarrow> toc_compliance_percentage t);
          sections = (case toc of None \<Rightarrow> [] | Some t \<Rightarrow> required_sections t);
          score' = fdiv compliance_percentage 100;
          passed' = (has_toc \<and> score' \<ge> fl64 (6 / 10))
      in \<lparr>passedV2 = passed', scoreV2 = score', sub_results = Some sections\<rparr>)"

section \<open>Version 2: milestone dates\<close>

fun py_join :: "string \<Rightarrow> string list \<Rightarrow> string" where
  "py_join sep [] = []"
| "py_join sep [x] = x"
| "py_join sep (x # y # ys) = x @ sep @ py_join sep (y # ys)"

text \<open>
  \<open>str(xs)\<close> for a list of strings that hold no quote, backslash or control character
  (dates do not).
\<close>

definition py_str_list :: "string list \<Rightarrow> string" where
  "py_str_list xs = ''['' @ py_join '', '' (map (\<lambda>s. [CHR 0x27] @ s @ [CHR 0x27]) xs) @ '']''"

text \<open>\<open>dates.append(x)\<close> where \<open>dates\<close> is a \<open>str\<close>.\<close>

definition str_append :: "string \<Rightarrow> string \<Rightarrow> py_error + string" where
  "str_append dates x = Inl (no_attribute ''str'' ''append'')"

text \<open>
  \<open>_extract_dates_from_milestones_table\<close>, over \<open>cell.text\<close> of every cell of every row of
  every table.  \<open>dates\<close> starts as the empty string and the name is never bound again.
\<close>

definition append_normalized :: "string list \<Rightarrow> string \<Rightarrow> py_error + string" where
  "append_normalized date_matches dates =
     for_each (\<lambda>date_match dates.
                 let normalized_date = normalize_date date_match
                 in if normalized_date \<noteq> [] then str_append dates normalized_date else Inr dates)
              date_matches dates"

definition scan_cell :: "string list \<Rightarrow> nat \<times> string \<Rightarrow> string \<Rightarrow> py_error + string" where
  "scan_cell row_data cell dates =
     (case cell of (cell_idx, cell_text) \<Rightarrow>
        if re_search (rx_words [''implementation'']) cell_text then
          for_each (\<lambda>next_cell. append_normalized (re_findall DATE_GENERAL next_cell))
                   (drop (cell_idx + 1) row_data) dates
        else if re_search (rx_words [''milestone'', ''deliverable'', ''completion'', ''finish''])
                  cell_text then
          append_normalized (re_findall DATE_GENERAL cell_text) dates
        else Inr dates)"

definition scan_table :: "string list list \<Rightarrow> string \<Rightarrow> py_error + string" where
  "scan_table table dates =
     (let table_text =
            filter (\<lambda>row_text. row_text \<noteq> [])
              (map (\<lambda>row. filter (\<lambda>cell_text. cell_text \<noteq> []) (map py_strip row)) table);
          table_full_text = py_join '' '' (map (py_join '' '') table_text)
      in if re_search rx_section_12 table_full_text \<or>
            re_search (rx_words [''implementation'']) table_full_text \<or>
            re_search (rx_words [''milestone'']) table_full_text
         then for_each (\<lambda>row_data. for_each (scan_cell row_data) (enumerate 0 row_data))
                       table_text dates
         else Inr dates)"

definition extract_dates_from_milestones_table :: "string list list list \<Rightarrow> string" where
  "extract_dates_from_milestones_table tables =
     (let dates = []
      in case for_each scan_table tables dates of
           Inr dates' \<Rightarrow> dates'
         | Inl e \<Rightarrow> dates)"

text \<open>The loop that removes duplicates and keeps the first occurrence.\<close>

fun unique_in_order :: "string list \<Rightarrow> string list \<Rightarrow> string list" where
  "unique_in_order seen [] = []"
| "unique_in_order seen (d # ds) =
     (if d \<in> set seen then unique_in_order seen ds else d # unique_in_order (d # seen) ds)"

text \<open>
  \<open>_extract_implementation_dates_enhanced\<close>.  \<open>list.extend\<close> of a string adds its
  characters one by one, and the function returns \<open>str(unique_dates)\<close>.
\<close>

definition extract_implementation_dates_enhanced :: "string \<Rightarrow> string list list list \<Rightarrow> pyval" where
  "extract_implementation_dates_enhanced document_text tables =
     (let matches = re_findall DATE_IMPLEMENTATION document_text;
          dates = map normalize_date (filter (\<lambda>d. d \<noteq> []) matches);
          table_dates = extract_dates_from_milestones_table tables;
          dates' = dates @ map (\<lambda>c. [c]) table_dates;
          unique_dates = unique_in_order [] dates'
      in PStr (py_str_list unique_dates))"

text \<open>
  \<open>_extract_full_text\<close>: the stripped non-empty paragraphs, then the stripped non-empty
  cells of every table, joined by newlines.
\<close>

definition extract_full_text :: "string list \<Rightarrow> string list list list \<Rightarrow> string" where
  "extract_full_text paragraphs tables =
     py_join [CHR 0x0A]
       (filter (\<lambda>t. t \<noteq> []) (map py_strip paragraphs) @
        filter (\<lambda>t. t \<noteq> []) (map py_strip (concat (concat tables))))"

section \<open>The date shape in the words of the specification\<close>

text \<open>
  A month or a day is one or two digits and a year is four; stripping the leading zeros
  of a run of digits leaves at least one digit.
\<close>

definition one_or_two_digits :: "string \<Rightarrow> bool" where
  "one_or_two_digits m = (1 \<le> length m \<and> length m \<le> 2 \<and> list_all is_digit m)"

definition four_digits :: "string \<Rightarrow> bool" where
  "four_digits y = (length y = 4 \<and> list_all is_digit y)"

definition strip_leading_zeros :: "string \<Rightarrow> string" where
  "strip_leading_zeros m =
     (case dropWhile (\<lambda>c. c = CHR ''0'') m of [] \<Rightarrow> ''0'' | r \<Rightarrow> r)"

section \<open>Field matches of Version 2 and sample documents\<close>

text \<open>
  What one turn of the Version 2 first-page loop counts as a match: both values are
  present and non-empty and \<open>_validate_id_format\<close> accepts them, stripped.
\<close>

definition v2_field_matches :: "excel_data \<Rightarrow> field_data \<Rightarrow> string \<times> string \<times> string \<Rightarrow> bool" where
  "v2_field_matches excel page mapping =
     (case mapping of (excel_field, doc_field, display_name) \<Rightarrow>
        (case excel excel_field of
           Some (excel_value # _) \<Rightarrow>
             truthy excel_value \<and> truthy (page doc_field) \<and>
             validate_id_format excel_field (py_strip (the excel_value)) (py_strip (the (page doc_field)))
         | _ \<Rightarrow> False))"

text \<open>
  A reference record with four fields and a first page that carries three of them
  exactly and lacks the task id.
\<close>

definition sample_excel :: excel_data where
  "sample_excel =
     [''business_app_id'' \<mapsto> [Some ''12345678''],
      ''enterprise_release_id'' \<mapsto> [Some ''2025.M08''],
      ''project_name'' \<mapsto> [Some ''Apollo''],
      ''task_id'' \<mapsto> [Some ''TSK001'']]"

definition sample_page :: field_data where
  "sample_page =
     [''business_app_id'' \<mapsto> ''12345678'',
      ''enterprise_release_id'' \<mapsto> ''2025.M08'',
      ''project_name'' \<mapsto> ''Apollo'']"

text \<open>
  A reference record with the six fields of Version 2 and a first page on which the
  release and the enterprise release id differ from the reference.
\<close>

definition sample_excel_v2 :: excel_data where
  "sample_excel_v2 =
     [''business_application'' \<mapsto> [Some ''Payments''],
      ''business_app_id'' \<mapsto> [Some ''12345678''],
      ''clarity_project_id'' \<mapsto> [Some ''PRJ01234''],
      ''project_name'' \<mapsto> [Some ''Apollo''],
      ''release'' \<mapsto> [Some ''RLSE0031115''],
      ''enterprise_release_id'' \<mapsto> [Some ''2025.M08'']]"

definition sample_page_v2 :: field_data where
  "sample_page_v2 =
     [''application_name'' \<mapsto> ''Payments'',
      ''application_id'' \<mapsto> ''12345678'',
      ''project_id'' \<mapsto> ''PRJ01234'',
      ''project_name'' \<mapsto> ''Apollo'',
      ''release'' \<mapsto> ''RLSE0031116'',
      ''enterprise_release_id'' \<mapsto> ''2025.M09'']"

section \<open>Sample results\<close>

text \<open>
  The five results of the document checker for a document whose first page matches
  nothing, whose footer matches with similarity 0.2, which has the table of contents and
  the scope section, an embedded workbook with the architecture sheet only, and the
  milestones section without dates; and the same results with the last two completing
  in the other order.
\<close>

definition docx_results :: "ComplianceResult list" where
  "docx_results =
     [\<lparr>check_name = ''first_page_validation'', passed = False, score = 0,
       details = [], errors = []\<rparr>,
      \<lparr>check_name = ''footer_validation'', passed = False, score = fl64 (2 / 10),
       details = [], errors = []\<rparr>,
      \<lparr>check_name = ''table_of_contents_validation'', passed = True, score = 1,
       details = [], errors = []\<rparr>,
      \<lparr>check_name = ''embedded_excel_validation'', passed = False, score = fl64 (2 / 10),
       details = [], errors = []\<rparr>,
      \<lparr>check_name = ''milestones_validation'', passed = True, score = fl64 (6 / 10),
       details = [], errors = []\<rparr>]"

definition docx_results_reordered :: "ComplianceResult list" where
  "docx_results_reordered =
     [docx_results ! 0, docx_results ! 1, docx_results ! 2, docx_results ! 4, docx_results ! 3]"

section \<open>Properties of the similarity matcher\<close>

lemma py_max_Max: "xs \<noteq> [] \<Longrightarrow> py_max xs = Inr (Max (set xs))"
proof (cases xs)
  case Nil
  then show "xs \<noteq> [] \<Longrightarrow> ?thesis" by simp
next
  case (Cons x ys)
  have "foldl max x ys = fold max ys x"
    by (simp add: foldl_conv_fold max.commute)
  also have "\<dots> = Max (set (x # ys))"
    by (rule Max.set_eq_fold [symmetric])
  finally show ?thesis using Cons by simp
qed

lemma py_index_first:
  "v \<in> set xs \<Longrightarrow>
   \<exists>i. py_index xs v = Inr i \<and> i < length xs \<and> xs ! i = v \<and> (\<forall>j<i. xs ! j \<noteq> v)"
proof (induction xs)
  case Nil
  then show ?case by simp
next
  case (Cons x xs)
  show ?case
  proof (cases "x = v")
    case True
    then show ?thesis by simp
  next
    case False
    with Cons.prems have "v \<in> set xs" by simp
    from Cons.IH [OF this] obtain i where
      i: "py_index xs v = Inr i" "i < length xs" "xs ! i = v" "\<forall>j<i. xs ! j \<noteq> v"
      by blast
    have "\<forall>j<Suc i. (x # xs) ! j \<noteq> v"
      using False i(4) by (auto simp: nth_Cons split: nat.splits)
    then show ?thesis using False i by simp
  qed
qed

lemma normalized_union_positive:
  assumes "normalize_text_cached a \<noteq> normalize_text_cached b"
  shows "0 < card (set (normalize_text_cached a) \<union> set (normalize_text_cached b))"
proof -
  from assms have "normalize_text_cached a \<noteq> [] \<or> normalize_text_cached b \<noteq> []" by auto
  then have "set (normalize_text_cached a) \<union> set (normalize_text_cached b) \<noteq> {}" by auto
  then show ?thesis by (simp add: card_gt_0_iff)
qed

lemma normalize_text_filter:
  "normalize_text_cached t =
     filter (\<lambda>c. c \<noteq> CHR '' '' \<and> c \<noteq> CHR ''-'' \<and> c \<noteq> CHR ''_'') (map lower_char (py_strip t))"
  by (cases "t = []")
     (auto simp: normalize_text_cached_def py_remove_def py_lower_def py_strip_def conj_commute
           intro: filter_cong)

text \<open>
  C3.  The similarity of two strings is 0 when either is empty; otherwise it is 1 when
  their normalized forms are equal, and otherwise it is the Jaccard index of the character
  sets of the two normalized forms (the cases are read in this order: two empty strings
  have equal normalized forms and score 0).  The normalized form is the stripped text in
  lower case without spaces, hyphens and underscores, so the three spellings of
  \<open>RLSE 0031115\<close> normalize to the same string.
\<close>

theorem similarity_score_cases:
  "calculate_similarity_score a b =
     (if a = [] \<or> b = [] then 0
      else if normalize_text_cached a = normalize_text_cached b then 1
      else real (card (set (normalize_text_cached a) \<inter> set (normalize_text_cached b)))
           / real (card (set (normalize_text_cached a) \<union> set (normalize_text_cached b)))) \<and>
   normalize_text_cached a =
     filter (\<lambda>c. c \<noteq> CHR '' '' \<and> c \<noteq> CHR ''-'' \<and> c \<noteq> CHR ''_'') (map lower_char (py_strip a)) \<and>
   normalize_text_cached ''RLSE 0031115'' = normalize_text_cached ''rlse-0031115'' \<and>
   normalize_text_cached ''rlse-0031115'' = normalize_text_cached ''rlse_0031115''"
proof (intro conjI)
  show "calculate_similarity_score a b =
     (if a = [] \<or> b = [] then 0
      else if normalize_text_cached a = normalize_text_cached b then 1
      else real (card (set (normalize_text_cached a) \<inter> set (normalize_text_cached b)))
           / real (card (set (normalize_text_cached a) \<union> set (normalize_text_cached b))))"
    using normalized_union_positive [of a b]
    by (auto simp: calculate_similarity_score_def Let_def)
  show "normalize_text_cached a =
     filter (\<lambda>c. c \<noteq> CHR '' '' \<and> c \<noteq> CHR ''-'' \<and> c \<noteq> CHR ''_'') (map lower_char (py_strip a))"
    by (rule normalize_text_filter)
  show "normalize_text_cached ''RLSE 0031115'' = normalize_text_cached ''rlse-0031115''"
    by code_simp
  show "normalize_text_cached ''rlse-0031115'' = normalize_text_cached ''rlse_0031115''"
    by code_simp
qed

text \<open>
  C3, at concrete inputs: an empty side scores 0, two spellings of one identifier score 1,
  and \<open>abc\<close> against \<open>abd\<close> scores 2/4.
\<close>

theorem similarity_score_cases_witness:
  "calculate_similarity_score [] ''abc'' = 0 \<and>
   calculate_similarity_score ''RLSE 0031115'' ''rlse-0031115'' = 1 \<and>
   calculate_similarity_score ''abc'' ''abd'' = 1 / 2"
proof -
  note s = conjunct1 [OF similarity_score_cases]
  have n1: "normalize_text_cached ''abc'' = ''abc''" by code_simp
  have n2: "normalize_text_cached ''abd'' = ''abd''" by code_simp
  have n3: "normalize_text_cached ''RLSE 0031115'' = ''rlse0031115''" by code_simp
  have n4: "normalize_text_cached ''rlse-0031115'' = ''rlse0031115''" by code_simp
  have c1: "card (set ''abc'' \<inter> set ''abd'') = 2" by code_simp
  have c2: "card (set ''abc'' \<union> set ''abd'') = 4" by code_simp
  have "calculate_similarity_score [] ''abc'' = 0"
    by (simp add: s [of "[]" "''abc''"])
  moreover have "calculate_similarity_score ''RLSE 0031115'' ''rlse-0031115'' = 1"
    by (simp add: s [of "''RLSE 0031115''" "''rlse-0031115''"] n3 n4)
  moreover have "calculate_similarity_score ''abc'' ''abd'' = 1 / 2"
    by (simp only: s [of "''abc''" "''abd''"] n1 n2 c1 c2) simp
  ultimately show ?thesis by simp
qed

text \<open>
  C4.  For an empty target or an empty candidate list the matcher returns no match with
  score 0 and no best candidate.  Otherwise it returns, without raising, the score of a
  candidate at some position \<open>i\<close> that no candidate exceeds and that no earlier candidate
  reaches, that candidate itself, and the verdict "score at least the threshold".
\<close>

theorem vectorized_text_match_spec:
  "(target = [] \<or> candidates = [] \<longrightarrow>
      vectorized_text_match target candidates threshold = Inr (False, 0, None)) \<and>
   (target \<noteq> [] \<and> candidates \<noteq> [] \<longrightarrow>
      (\<exists>i<length candidates.
         vectorized_text_match target candidates threshold =
           Inr (threshold \<le> calculate_similarity_score target (candidates ! i),
                calculate_similarity_score target (candidates ! i),
                Some (candidates ! i)) \<and>
         (\<forall>j<length candidates.
            calculate_similarity_score target (candidates ! j)
              \<le> calculate_similarity_score target (candidates ! i)) \<and>
         (\<forall>j<i.
            calculate_similarity_score target (candidates ! j)
              < calculate_similarity_score target (candidates ! i))))"
proof (intro conjI impI)
  assume "target = [] \<or> candidates = []"
  then show "vectorized_text_match target candidates threshold = Inr (False, 0, None)"
    by (auto simp: vectorized_text_match_def)
next
  assume ne: "target \<noteq> [] \<and> candidates \<noteq> []"
  define sims where "sims = map (calculate_similarity_score target) candidates"
  define m where "m = Max (set sims)"
  have sne: "sims \<noteq> []" using ne by (simp add: sims_def)
  have mx: "py_max sims = Inr m" using py_max_Max [OF sne] by (simp add: m_def)
  have "m \<in> set sims" unfolding m_def using sne by (intro Max_in) auto
  from py_index_first [OF this] obtain i where
    i: "py_index sims m = Inr i" "i < length sims" "sims ! i = m" "\<forall>j<i. sims ! j \<noteq> m"
    by blast
  have le: "\<And>j. j < length sims \<Longrightarrow> sims ! j \<le> m"
    unfolding m_def by (intro Max_ge) auto
  have il: "i < length candidates" using i(2) by (simp add: sims_def)
  have si: "calculate_similarity_score target (candidates ! i) = m"
    using i(3) il by (simp add: sims_def)
  have res: "vectorized_text_match target candidates threshold =
      Inr (threshold \<le> m, m, Some (candidates ! i))"
    using ne sne mx i(1) by (simp add: vectorized_text_match_def sims_def [symmetric])
  have all_le: "\<forall>j<length candidates. calculate_similarity_score target (candidates ! j) \<le> m"
    using le by (simp add: sims_def)
  have lt: "\<forall>j<i. calculate_similarity_score target (candidates ! j) < m"
  proof (intro allI impI)
    fix j assume "j < i"
    then have "j < length candidates" using il by simp
    moreover have "sims ! j \<noteq> m" using i(4) \<open>j < i\<close> by simp
    ultimately show "calculate_similarity_score target (candidates ! j) < m"
      using all_le by (fastforce simp: sims_def)
  qed
  show "\<exists>i<length candidates.
         vectorized_text_match target candidates threshold =
           Inr (threshold \<le> calculate_similarity_score target (candidates ! i),
                calculate_similarity_score target (candidates ! i),
                Some (candidates ! i)) \<and>
         (\<forall>j<length candidates.
            calculate_similarity_score target (candidates ! j)
              \<le> calculate_similarity_score target (candidates ! i)) \<and>
         (\<forall>j<i.
            calculate_similarity_score target (candidates ! j)
              < calculate_similarity_score target (candidates ! i))"
    using il res all_le lt si by auto
qed

text \<open>
  C4, at concrete inputs: of two candidates with the maximal score 1 the first in list
  order is returned, with a match at the default threshold; an empty target matches
  nothing.
\<close>

theorem vectorized_text_match_spec_witness:
  "vectorized_text_match ''abc'' [''abd'', ''abc'', ''ABC''] default_threshold
     = Inr (True, 1, Some ''abc'') \<and>
   vectorized_text_match [] [''abc''] default_threshold = Inr (False, 0, None)"
proof -
  let ?cs = "[''abd'', ''abc'', ''ABC'']"
  have s0: "calculate_similarity_score ''abc'' ''abd'' = 1 / 2" by code_simp
  have s1: "calculate_similarity_score ''abc'' ''abc'' = 1" by code_simp
  have s2: "calculate_similarity_score ''abc'' ''ABC'' = 1" by code_simp
  from vectorized_text_match_spec [of "''abc''" ?cs default_threshold]
  obtain i where i: "i < length ?cs"
    and r: "vectorized_text_match ''abc'' ?cs default_threshold =
           Inr (default_threshold \<le> calculate_similarity_score ''abc'' (?cs ! i),
                calculate_similarity_score ''abc'' (?cs ! i), Some (?cs ! i))"
    and mx: "\<forall>j<length ?cs. calculate_similarity_score ''abc'' (?cs ! j)
                \<le> calculate_similarity_score ''abc'' (?cs ! i)"
    and first: "\<forall>j<i. calculate_similarity_score ''abc'' (?cs ! j)
                < calculate_similarity_score ''abc'' (?cs ! i)"
    by auto
  from i have "i = 0 \<or> i = 1 \<or> i = 2" by auto
  moreover have "i \<noteq> 0"
  proof
    assume "i = 0"
    moreover have "calculate_similarity_score ''abc'' (?cs ! 1)
        \<le> calculate_similarity_score ''abc'' (?cs ! i)"
      using mx [rule_format, of 1] by simp
    ultimately show False using s0 s1 by simp
  qed
  moreover have "i \<noteq> 2"
  proof
    assume "i = 2"
    moreover from this have "calculate_similarity_score ''abc'' (?cs ! 1)
        < calculate_similarity_score ''abc'' (?cs ! i)"
      using first [rule_format, of 1] by simp
    ultimately show False using s1 s2 by simp
  qed
  ultimately have "i = 1" by blast
  with r s1 have "vectorized_text_match ''abc'' ?cs default_threshold = Inr (True, 1, Some ''abc'')"
    by (simp add: default_threshold_def)
  moreover have "vectorized_text_match [] [''abc''] default_threshold = Inr (False, 0, None)"
    using vectorized_text_match_spec [of "[]" "[''abc'']" default_threshold] by simp
  ultimately show ?thesis by simp
qed

section \<open>Properties of \<open>normalize_date\<close>\<close>


lemma digit_val_char: "is_digit c \<Longrightarrow> digit_char (digit_val c) = c"
  by (auto simp: is_digit_def digit_char_def digit_val_def Let_def)

lemma digit_val_lt: "is_digit c \<Longrightarrow> digit_val c < 10"
  by (auto simp: is_digit_def digit_val_def Let_def)

lemma digit_val_zero: "is_digit c \<Longrightarrow> digit_val c = 0 \<longleftrightarrow> c = CHR ''0''"
proof -
  assume d: "is_digit c"
  have "digit_char (digit_val c) = c" using d by (rule digit_val_char)
  moreover have "digit_val (CHR ''0'') = 0" by (simp add: digit_val_def)
  moreover have "digit_char 0 = CHR ''0''" by code_simp
  ultimately show ?thesis by metis
qed

lemma is_digit_char: "n < 10 \<Longrightarrow> is_digit (digit_char n)"
  by (auto simp: is_digit_def digit_char_def Let_def)

lemma slash_not_digit: "\<not> is_digit (CHR ''/'')"
  by (simp add: is_digit_def)

lemma digit_not_space: "is_digit c \<Longrightarrow> \<not> is_space c"
  by (auto simp: is_digit_def is_space_def Let_def)



lemma py_strip_fixed:
  assumes "s \<noteq> []" "\<not> is_space (hd s)" "\<not> is_space (last s)"
  shows "py_strip s = s"
proof -
  have 1: "dropWhile is_space s = s"
    using assms(2) by (simp add: dropWhile_eq_self_iff)
  have 2: "dropWhile is_space (rev s) = rev s"
    using assms(1,3) by (simp add: dropWhile_eq_self_iff hd_rev)
  show ?thesis by (simp add: py_strip_def 1 2)
qed

lemma py_strip_ends:
  assumes "py_strip s \<noteq> []"
  shows "\<not> is_space (hd (py_strip s)) \<and> \<not> is_space (last (py_strip s))"
proof -
  define u where "u = dropWhile is_space s"
  define v where "v = dropWhile is_space (rev u)"
  have t: "py_strip s = rev v" by (simp add: py_strip_def u_def v_def)
  with assms have vne: "v \<noteq> []" by simp
  then have hv: "\<not> is_space (hd v)" unfolding v_def by (rule hd_dropWhile)
  have une: "u \<noteq> []" using vne unfolding v_def by auto
  then have hu: "\<not> is_space (hd u)" unfolding u_def by (rule hd_dropWhile)
  obtain w where w: "rev u = w @ v"
    unfolding v_def by (metis takeWhile_dropWhile_id)
  have "last v = last (rev u)" using w vne by simp
  also have "\<dots> = hd u" using une by (simp add: last_rev)
  finally have "\<not> is_space (last v)" using hu by simp
  then show ?thesis using hv vne by (simp add: t hd_rev last_rev)
qed

lemma py_strip_idem: "py_strip (py_strip s) = py_strip s"
proof (cases "py_strip s = []")
  case True
  have "py_strip [] = []" by (simp add: py_strip_def)
  then show ?thesis using True by simp
next
  case False
  then show ?thesis using py_strip_ends [OF False] by (intro py_strip_fixed) auto
qed

lemma rx_digits_exact:
  "length y = n \<Longrightarrow> list_all is_digit y \<Longrightarrow> rx_digits n (y @ rest) = [(y, rest)]"
  by (simp add: rx_digits_def)

lemma rx_month_then_slash:
  assumes "one_or_two_digits m"
  shows "[x. (mm, r1) \<leftarrow> rx_digits_1_2 (m @ CHR ''/'' # t), r2 \<leftarrow> rx_char (CHR ''/'') r1, x \<leftarrow> f mm r2]
         = f m t"
proof -
  from assms consider a where "m = [a]" "is_digit a" | a b where "m = [a, b]" "is_digit a" "is_digit b"
    unfolding one_or_two_digits_def
    by (cases m rule: list.exhaust; cases "tl m"; cases "tl (tl m)") auto
  then show ?thesis
  proof cases
    case 1
    then show ?thesis
      by (simp add: rx_digits_1_2_def rx_digits_def rx_char_def slash_not_digit)
  next
    case 2
    then have "b \<noteq> CHR ''/''" using slash_not_digit by auto
    with 2 show ?thesis
      by (simp add: rx_digits_1_2_def rx_digits_def rx_char_def slash_not_digit)
  qed
qed

lemma rx_date_shaped:
  assumes "one_or_two_digits m" "one_or_two_digits d" "four_digits y"
  shows "rx_date (m @ ''/'' @ d @ ''/'' @ y @ rest) = [((m, d, y), rest)]"
proof -
  have y: "rx_digits 4 (y @ rest) = [(y, rest)]"
    using assms(3) by (simp add: four_digits_def rx_digits_exact)
  have "rx_date (m @ CHR ''/'' # d @ CHR ''/'' # y @ rest) =
        [x. (mm, r1) \<leftarrow> rx_digits_1_2 (m @ CHR ''/'' # d @ CHR ''/'' # y @ rest),
            r2 \<leftarrow> rx_char (CHR ''/'') r1,
            x \<leftarrow> [((mm, day, year), r5).
                    (day, r3) \<leftarrow> rx_digits_1_2 r2,
                    r4 \<leftarrow> rx_char (CHR ''/'') r3,
                    (year, r5) \<leftarrow> rx_digits 4 r4]]"
    by (simp add: rx_date_def)
  also have "\<dots> = [((m, day, year), r5).
                    (day, r3) \<leftarrow> rx_digits_1_2 (d @ CHR ''/'' # y @ rest),
                    r4 \<leftarrow> rx_char (CHR ''/'') r3,
                    (year, r5) \<leftarrow> rx_digits 4 r4]"
    by (rule rx_month_then_slash [OF assms(1)])
  also have "\<dots> = [x. (day, r3) \<leftarrow> rx_digits_1_2 (d @ CHR ''/'' # y @ rest),
                    r4 \<leftarrow> rx_char (CHR ''/'') r3,
                    x \<leftarrow> [((m, day, year), r5). (year, r5) \<leftarrow> rx_digits 4 r4]]"
    by simp
  also have "\<dots> = [((m, d, year), r5). (year, r5) \<leftarrow> rx_digits 4 (y @ rest)]"
    by (rule rx_month_then_slash [OF assms(2)])
  also have "\<dots> = [((m, d, y), rest)]" by (simp add: y)
  finally show ?thesis by simp
qed

lemma rx_digits_sound:
  "(ds, r) \<in> set (rx_digits n s) \<Longrightarrow> length ds = n \<and> list_all is_digit ds \<and> s = ds @ r"
  by (auto simp: rx_digits_def split: if_splits)

lemma rx_digits_1_2_sound:
  "(ds, r) \<in> set (rx_digits_1_2 s) \<Longrightarrow> one_or_two_digits ds \<and> s = ds @ r"
  by (auto simp: rx_digits_1_2_def one_or_two_digits_def dest!: rx_digits_sound)

lemma rx_char_sound: "r \<in> set (rx_char c s) \<Longrightarrow> s = c # r"
  by (auto simp: rx_char_def split: list.splits if_splits)

lemma rx_date_sound:
  assumes "((m, d, y), rest) \<in> set (rx_date t)"
  shows "one_or_two_digits m \<and> one_or_two_digits d \<and> four_digits y \<and>
         t = m @ ''/'' @ d @ ''/'' @ y @ rest"
proof -
  from assms obtain r1 r2 r3 r4 where
    1: "(m, r1) \<in> set (rx_digits_1_2 t)" and 2: "r2 \<in> set (rx_char (CHR ''/'') r1)" and
    3: "(d, r3) \<in> set (rx_digits_1_2 r2)" and 4: "r4 \<in> set (rx_char (CHR ''/'') r3)" and
    5: "(y, rest) \<in> set (rx_digits 4 r4)"
    unfolding rx_date_def by auto
  from rx_digits_1_2_sound [OF 1] rx_char_sound [OF 2] rx_digits_1_2_sound [OF 3]
    rx_char_sound [OF 4] rx_digits_sound [OF 5]
  show ?thesis by (simp add: four_digits_def)
qed

lemma py_strip_Nil: "py_strip [] = []"
  by (simp add: py_strip_def)

lemma strip_leading_zeros_cases:
  assumes "one_or_two_digits m"
  shows "py_str_nat (py_int m) = strip_leading_zeros m"
proof -
  have z: "digit_char 0 = CHR ''0''" by code_simp
  from assms consider a where "m = [a]" "is_digit a" | a b where "m = [a, b]" "is_digit a" "is_digit b"
    unfolding one_or_two_digits_def
    by (cases m rule: list.exhaust; cases "tl m"; cases "tl (tl m)") auto
  then show ?thesis
  proof cases
    case 1
    then show ?thesis
      using digit_val_lt [of a] digit_val_char [of a] digit_val_zero [of a]
      by (auto simp: py_int_def strip_leading_zeros_def z)
  next
    case 2
    show ?thesis
    proof (cases "a = CHR ''0''")
      case True
      then have "py_int m = digit_val b"
        using 2 digit_val_zero [of a] by (simp add: py_int_def)
      then show ?thesis
        using 2 True digit_val_lt [of b] digit_val_char [of b] digit_val_zero [of b]
        by (auto simp: strip_leading_zeros_def z)
    next
      case False
      then have a0: "digit_val a \<noteq> 0" using 2 digit_val_zero [of a] by simp
      have n: "py_int m = 10 * digit_val a + digit_val b" using 2 by (simp add: py_int_def)
      have "\<not> py_int m < 10" using a0 n by simp
      moreover have "py_int m div 10 = digit_val a" "py_int m mod 10 = digit_val b"
        using n digit_val_lt [of b] 2 by simp_all
      ultimately have "py_str_nat (py_int m) = py_str_nat (digit_val a) @ [digit_char (digit_val b)]"
        by (subst py_str_nat.simps) simp
      also have "\<dots> = [a, b]"
        using 2 digit_val_lt [of a] digit_val_char by (subst py_str_nat.simps) simp
      finally show ?thesis using 2 False by (simp add: strip_leading_zeros_def)
    qed
  qed
qed

lemma strip_leading_zeros_shape:
  assumes "one_or_two_digits m"
  shows "one_or_two_digits (strip_leading_zeros m) \<and>
         strip_leading_zeros (strip_leading_zeros m) = strip_leading_zeros m"
proof -
  have z: "is_digit (CHR ''0'')" by (simp add: is_digit_def)
  from assms consider a where "m = [a]" "is_digit a" | a b where "m = [a, b]" "is_digit a" "is_digit b"
    unfolding one_or_two_digits_def
    by (cases m rule: list.exhaust; cases "tl m"; cases "tl (tl m)") auto
  then show ?thesis
    by cases (auto simp: strip_leading_zeros_def one_or_two_digits_def z)
qed

lemma normalize_date_shaped:
  assumes "one_or_two_digits m" "one_or_two_digits d" "four_digits y"
    and "py_strip s = m @ ''/'' @ d @ ''/'' @ y @ rest"
  shows "normalize_date s = strip_leading_zeros m @ ''/'' @ strip_leading_zeros d @ ''/'' @ y"
proof -
  have "s \<noteq> []" using assms(4) by (auto simp: py_strip_Nil)
  moreover have "first_match (rx_date (py_strip s)) = Some ((m, d, y), rest)"
    using rx_date_shaped [OF assms(1-3)] assms(4) by (simp add: first_match_def)
  ultimately show ?thesis
    using strip_leading_zeros_cases [OF assms(1)] strip_leading_zeros_cases [OF assms(2)]
    by (simp add: normalize_date_def Let_def)
qed

lemma normalize_date_other:
  assumes "\<not> (\<exists>m d y rest. one_or_two_digits m \<and> one_or_two_digits d \<and> four_digits y \<and>
                py_strip s = m @ ''/'' @ d @ ''/'' @ y @ rest)"
  shows "normalize_date s = py_strip s"
proof -
  have "rx_date (py_strip s) = []"
  proof (rule ccontr)
    assume "rx_date (py_strip s) \<noteq> []"
    then obtain m d y rest where "((m, d, y), rest) \<in> set (rx_date (py_strip s))"
      by (cases "rx_date (py_strip s)") auto
    from rx_date_sound [OF this] assms show False by blast
  qed
  then show ?thesis
    by (simp add: normalize_date_def first_match_def Let_def py_strip_Nil)
qed

lemma normalize_date_idem: "normalize_date (normalize_date s) = normalize_date s"
proof (cases "\<exists>m d y rest. one_or_two_digits m \<and> one_or_two_digits d \<and> four_digits y \<and>
                py_strip s = m @ ''/'' @ d @ ''/'' @ y @ rest")
  case True
  then obtain m d y rest where sh: "one_or_two_digits m" "one_or_two_digits d" "four_digits y"
    and s: "py_strip s = m @ ''/'' @ d @ ''/'' @ y @ rest" by blast
  let ?m = "strip_leading_zeros m" and ?d = "strip_leading_zeros d"
  let ?r = "?m @ ''/'' @ ?d @ ''/'' @ y"
  have r: "normalize_date s = ?r" by (rule normalize_date_shaped [OF sh s])
  have m': "one_or_two_digits ?m" "strip_leading_zeros ?m = ?m"
    using strip_leading_zeros_shape [OF sh(1)] by simp_all
  have d': "one_or_two_digits ?d" "strip_leading_zeros ?d = ?d"
    using strip_leading_zeros_shape [OF sh(2)] by simp_all
  have mne: "?m \<noteq> []" "is_digit (hd ?m)"
    using m'(1) by (cases ?m; simp add: one_or_two_digits_def)+
  have yne: "y \<noteq> []" "is_digit (last y)"
    using sh(3) by (cases y rule: rev_cases; simp add: four_digits_def)+
  have "py_strip ?r = ?r"
    using mne yne by (intro py_strip_fixed) (auto simp: digit_not_space)
  then have "py_strip ?r = ?m @ ''/'' @ ?d @ ''/'' @ y @ []" by simp
  from normalize_date_shaped [OF m'(1) d'(1) sh(3) this]
  show ?thesis by (simp add: r m'(2) d'(2))
next
  case False
  then have r: "normalize_date s = py_strip s" by (rule normalize_date_other)
  have "\<not> (\<exists>m d y rest. one_or_two_digits m \<and> one_or_two_digits d \<and> four_digits y \<and>
                py_strip (py_strip s) = m @ ''/'' @ d @ ''/'' @ y @ rest)"
    using False by (simp add: py_strip_idem)
  then have "normalize_date (py_strip s) = py_strip (py_strip s)" by (rule normalize_date_other)
  then show ?thesis by (simp add: r py_strip_idem)
qed

text \<open>
  C10, as stated, fails: a string that is not a date is not left unchanged, it loses the
  whitespace around it.
\<close>

theorem normalize_date_unchanged_counterexample:
  "normalize_date '' abc '' \<noteq> '' abc '' \<and>
   \<not> (\<exists>m d y rest. one_or_two_digits m \<and> one_or_two_digits d \<and> four_digits y \<and>
          '' abc '' = m @ ''/'' @ d @ ''/'' @ y @ rest)"
proof
  have "normalize_date '' abc '' = ''abc''" by code_simp
  then show "normalize_date '' abc '' \<noteq> '' abc ''" by simp
  show "\<not> (\<exists>m d y rest. one_or_two_digits m \<and> one_or_two_digits d \<and> four_digits y \<and>
          '' abc '' = m @ ''/'' @ d @ ''/'' @ y @ rest)"
  proof
    assume "\<exists>m d y rest. one_or_two_digits m \<and> one_or_two_digits d \<and> four_digits y \<and>
          '' abc '' = m @ ''/'' @ d @ ''/'' @ y @ rest"
    then obtain m d y rest where m: "one_or_two_digits m"
      and e: "'' abc '' = m @ ''/'' @ d @ ''/'' @ y @ rest" by blast
    from m obtain a m' where "m = a # m'" "is_digit a"
      by (cases m) (auto simp: one_or_two_digits_def)
    with e have "is_digit (CHR '' '')" by simp
    then show False by (simp add: is_digit_def)
  qed
qed

text \<open>
  C10, amended.  \<open>normalize_date\<close> works on the text with the surrounding whitespace
  stripped.  When that text starts with month/day/year (month and day of one or two
  digits, year of four), the result is the month and the day without leading zeros and
  the year, and whatever follows the year is dropped; any other text is returned stripped.
  The function is idempotent, \<open>08/11/2025\<close> becomes \<open>8/11/2025\<close> and \<open>8/1/2025\<close> stays.
\<close>

theorem normalize_date_spec:
  "(one_or_two_digits m \<and> one_or_two_digits d \<and> four_digits y \<and>
    py_strip s = m @ ''/'' @ d @ ''/'' @ y @ rest \<longrightarrow>
      normalize_date s = strip_leading_zeros m @ ''/'' @ strip_leading_zeros d @ ''/'' @ y) \<and>
   (\<not> (\<exists>m d y rest. one_or_two_digits m \<and> one_or_two_digits d \<and> four_digits y \<and>
          py_strip s = m @ ''/'' @ d @ ''/'' @ y @ rest) \<longrightarrow>
      normalize_date s = py_strip s) \<and>
   normalize_date (normalize_date s) = normalize_date s \<and>
   normalize_date ''08/11/2025'' = ''8/11/2025'' \<and>
   normalize_date ''8/1/2025'' = ''8/1/2025''"
proof (intro conjI impI)
  assume "one_or_two_digits m \<and> one_or_two_digits d \<and> four_digits y \<and>
    py_strip s = m @ ''/'' @ d @ ''/'' @ y @ rest"
  then show "normalize_date s = strip_leading_zeros m @ ''/'' @ strip_leading_zeros d @ ''/'' @ y"
    using normalize_date_shaped by blast
next
  assume "\<not> (\<exists>m d y rest. one_or_two_digits m \<and> one_or_two_digits d \<and> four_digits y \<and>
          py_strip s = m @ ''/'' @ d @ ''/'' @ y @ rest)"
  then show "normalize_date s = py_strip s" by (rule normalize_date_other)
next
  show "normalize_date (normalize_date s) = normalize_date s" by (rule normalize_date_idem)
  show "normalize_date ''08/11/2025'' = ''8/11/2025''" by code_simp
  show "normalize_date ''8/1/2025'' = ''8/1/2025''" by code_simp
qed

text \<open>
  C10, amended, at a date with surrounding text: the zeros go, the text after the year
  is dropped, and a second pass changes nothing.
\<close>

theorem normalize_date_spec_witness:
  "normalize_date '' 08/01/2025abc'' = ''8/1/2025'' \<and>
   normalize_date (normalize_date '' 08/01/2025abc'') = normalize_date '' 08/01/2025abc''"
proof -
  note spec = normalize_date_spec [of "''08''" "''01''" "''2025''" "'' 08/01/2025abc''" "''abc''"]
  have h: "one_or_two_digits ''08'' \<and> one_or_two_digits ''01'' \<and> four_digits ''2025'' \<and>
           py_strip '' 08/01/2025abc'' = ''08'' @ ''/'' @ ''01'' @ ''/'' @ ''2025'' @ ''abc''"
    by code_simp
  have z: "strip_leading_zeros ''08'' = ''8''" "strip_leading_zeros ''01'' = ''1''"
    by code_simp+
  from spec h have "normalize_date '' 08/01/2025abc'' =
      strip_leading_zeros ''08'' @ ''/'' @ strip_leading_zeros ''01'' @ ''/'' @ ''2025''"
    by blast
  then have "normalize_date '' 08/01/2025abc'' = ''8/1/2025''" by (simp add: z)
  moreover from spec have "normalize_date (normalize_date '' 08/01/2025abc'')
      = normalize_date '' 08/01/2025abc''" by blast
  ultimately show ?thesis by simp
qed

section \<open>Properties of \<open>_validate_id_format\<close>\<close>

lemma lower_upper_char: "lower_char (upper_char c) = lower_char c"
proof (cases "is_lower c")
  case True
  define n where "n = (of_char c :: nat)"
  from True have r: "97 \<le> n" "n \<le> 122"
    by (simp_all add: is_lower_def Let_def n_def)
  have c: "c = char_of n" by (simp add: n_def)
  have u: "upper_char c = char_of (n - 32)"
    using True by (simp add: upper_char_def n_def)
  have "n - 32 < 256" using r by arith
  then have o: "(of_char (char_of (n - 32)) :: nat) = n - 32"
    by (simp add: of_char_of)
  have "65 \<le> n - 32 \<and> n - 32 \<le> 90" using r by arith
  then have up: "is_upper (upper_char c)" by (simp add: is_upper_def Let_def u o)
  have nu: "\<not> is_upper c" using r by (simp add: is_upper_def Let_def n_def [symmetric])
  have "(of_char (upper_char c) :: nat) + 32 = n - 32 + 32" by (simp only: u o)
  also have "\<dots> = n" using r by arith
  finally have restored: "(of_char (upper_char c) :: nat) + 32 = n" .
  have "lower_char (upper_char c) = char_of ((of_char (upper_char c) :: nat) + 32)"
    using up by (simp only: lower_char_def if_True)
  then have "lower_char (upper_char c) = char_of n" by (simp only: restored)
  then show ?thesis using nu c by (simp add: lower_char_def)
next
  case False
  then show ?thesis by (simp add: upper_char_def)
qed

lemma py_lower_upper: "py_lower (py_upper s) = py_lower s"
  by (simp add: py_lower_def py_upper_def lower_upper_char)

lemma upper_eq_lower_eq:
  assumes "py_upper a = py_upper b"
  shows "py_lower a = py_lower b"
proof -
  have "py_lower a = py_lower (py_upper a)" by (simp add: py_lower_upper)
  also have "\<dots> = py_lower (py_upper b)" by (simp add: assms)
  also have "\<dots> = py_lower b" by (rule py_lower_upper)
  finally show ?thesis .
qed

text \<open>
  C7 fails on the code.  The first statement of \<open>_validate_id_format\<close> returns \<open>True\<close> for
  every pair of values that are equal up to case, before any pattern is consulted, and
  each later branch asks for the same equality again; so the verdict is the
  case-insensitive equality alone, whatever the field.  A reference value \<open>tbd\<close> and a
  document value \<open>TBD\<close> are accepted for the enterprise release id, and \<open>rlse003\<close> and
  \<open>RLSE003\<close> for the release, though neither document value has the format of its field.
\<close>

theorem validate_id_format_ignores_format:
  "validate_id_format field_type excel_value doc_value
     = (py_lower excel_value = py_lower doc_value) \<and>
   validate_id_format ''enterprise_release_id'' ''tbd'' ''TBD'' = True \<and>
   match_enterprise_release_id ''TBD'' = False \<and>
   validate_id_format ''release'' ''rlse003'' ''RLSE003'' = True \<and>
   match_release ''RLSE003'' = False"
proof (intro conjI)
  show "validate_id_format field_type excel_value doc_value
     = (py_lower excel_value = py_lower doc_value)"
  proof (cases "py_lower excel_value = py_lower doc_value")
    case True
    then show ?thesis by (simp add: validate_id_format_def)
  next
    case False
    then have "py_upper excel_value \<noteq> py_upper doc_value"
      using upper_eq_lower_eq by blast
    moreover have "excel_value \<noteq> doc_value" using False by auto
    ultimately show ?thesis using False by (simp add: validate_id_format_def)
  qed
  show "validate_id_format ''enterprise_release_id'' ''tbd'' ''TBD'' = True" by code_simp
  show "match_enterprise_release_id ''TBD'' = False" by code_simp
  show "validate_id_format ''release'' ''rlse003'' ''RLSE003'' = True" by code_simp
  show "match_release ''RLSE003'' = False" by code_simp
qed

section \<open>Properties of the milestone-date extraction\<close>

lemma for_each_unchanged:
  assumes "\<And>x s s'. x \<in> set xs \<Longrightarrow> body x s = Inr s' \<Longrightarrow> s' = s"
    and "for_each body xs s = Inr s'"
  shows "s' = s"
  using assms
proof (induction xs arbitrary: s)
  case Nil
  then show ?case by simp
next
  case (Cons x xs)
  from Cons.prems(2) obtain s1 where b: "body x s = Inr s1" and r: "for_each body xs s1 = Inr s'"
    by (auto split: sum.splits)
  from Cons.prems(1) [of x s s1] b have "s1 = s" by simp
  moreover have "s' = s1"
    using Cons.IH [of s1] Cons.prems(1) r by auto
  ultimately show ?case by simp
qed

lemma append_normalized_unchanged:
  "append_normalized ms dates = Inr dates' \<Longrightarrow> dates' = dates"
  unfolding append_normalized_def
  by (erule for_each_unchanged [rotated]) (auto simp: str_append_def Let_def split: if_splits)

lemma scan_cell_unchanged:
  "scan_cell row_data cell dates = Inr dates' \<Longrightarrow> dates' = dates"
  unfolding scan_cell_def
  by (auto split: prod.splits if_splits
           dest: append_normalized_unchanged
           elim: for_each_unchanged [rotated])

lemma scan_table_unchanged:
  "scan_table table dates = Inr dates' \<Longrightarrow> dates' = dates"
  unfolding scan_table_def Let_def
  by (auto split: if_splits
           elim!: for_each_unchanged [rotated]
           dest: scan_cell_unchanged)

lemma milestones_table_dates_empty:
  "extract_dates_from_milestones_table tables = []"
proof (cases "for_each scan_table tables []")
  case (Inl e)
  then show ?thesis by (simp add: extract_dates_from_milestones_table_def)
next
  case (Inr dates')
  then have "dates' = []"
    by (rule for_each_unchanged [rotated]) (rule scan_table_unchanged)
  with Inr show ?thesis by (simp add: extract_dates_from_milestones_table_def)
qed

text \<open>
  C9 fails on the code.  \<open>_extract_dates_from_milestones_table\<close> starts \<open>dates\<close> as a string,
  so the first \<open>dates.append\<close> raises \<open>AttributeError\<close>, the \<open>except\<close> branch returns the
  empty string, and the table scan never contributes a date; and the caller returns
  \<open>str(unique_dates)\<close>, a string, not the list.  For every text and every list of tables
  the result is the printed list of the dates of the label-anchored pattern alone.  For a
  document whose only table has the row \<open>Implementation | 08/11/2025\<close> the scan finds the
  date and raises, and the result is the text \<open>[]\<close>, where the claim promises the list
  holding \<open>8/11/2025\<close>.
\<close>

theorem implementation_dates_table_path_lost:
  "extract_implementation_dates_enhanced document_text tables =
     PStr (py_str_list (unique_in_order []
       (map normalize_date (filter (\<lambda>d. d \<noteq> []) (re_findall DATE_IMPLEMENTATION document_text))))) \<and>
   extract_dates_from_milestones_table tables = [] \<and>
   for_each scan_table [[[''Implementation'', ''08/11/2025'']]] []
     = Inl (no_attribute ''str'' ''append'') \<and>
   extract_implementation_dates_enhanced
     (extract_full_text [] [[[''Implementation'', ''08/11/2025'']]])
     [[[''Implementation'', ''08/11/2025'']]] = PStr ''[]'' \<and>
   extract_implementation_dates_enhanced ''Implementation Date: 08/11/2025'' []
     = PStr (''['' @ [CHR 0x27] @ ''8/11/2025'' @ [CHR 0x27] @ '']'')"
proof (intro conjI)
  show "extract_implementation_dates_enhanced document_text tables =
     PStr (py_str_list (unique_in_order []
       (map normalize_date (filter (\<lambda>d. d \<noteq> []) (re_findall DATE_IMPLEMENTATION document_text)))))"
    by (simp add: extract_implementation_dates_enhanced_def Let_def milestones_table_dates_empty)
  show "extract_dates_from_milestones_table tables = []"
    by (rule milestones_table_dates_empty)
  show "for_each scan_table [[[''Implementation'', ''08/11/2025'']]] []
     = Inl (no_attribute ''str'' ''append'')"
    by code_simp
  show "extract_implementation_dates_enhanced
     (extract_full_text [] [[[''Implementation'', ''08/11/2025'']]])
     [[[''Implementation'', ''08/11/2025'']]] = PStr ''[]''"
    by code_simp
  show "extract_implementation_dates_enhanced ''Implementation Date: 08/11/2025'' []
     = PStr (''['' @ [CHR 0x27] @ ''8/11/2025'' @ [CHR 0x27] @ '']'')"
    by code_simp
qed

section \<open>Properties of the check runner\<close>

lemma parallel_results_collected:
  assumes "0 < max_workers" and "completion_order (length check_functions) completion"
  shows "\<exists>results.
           run_checks_parallel check_functions max_workers completion = Inr results \<and>
           length results = length check_functions \<and>
           mset results = mset (map collect_result check_functions)"
proof -
  let ?n = "length check_functions"
  let ?f = "\<lambda>i. collect_result (check_functions ! i)"
  have m: "mset completion = mset [0..<?n]"
    using assms(2) by (simp only: completion_order_def)
  have "mset (map ?f completion) = image_mset ?f (mset completion)"
    by (rule mset_map)
  also have "\<dots> = image_mset ?f (mset [0..<?n])" by (simp only: m)
  also have "\<dots> = mset (map ?f [0..<?n])" by (rule mset_map [symmetric])
  also have "map ?f [0..<?n] = map collect_result (map ((!) check_functions) [0..<?n])"
    by (simp only: map_map comp_def)
  also have "map ((!) check_functions) [0..<?n] = check_functions" by (rule map_nth)
  finally have ms: "mset (map ?f completion) = mset (map collect_result check_functions)" .
  have "length completion = size (mset completion)" by (rule size_mset [symmetric])
  also have "\<dots> = size (mset [0..<?n])" by (simp only: m)
  also have "\<dots> = ?n" by (simp only: size_mset length_upt diff_zero)
  finally have len: "length completion = ?n" .
  have r: "run_checks_parallel check_functions max_workers completion = Inr (map ?f completion)"
    using assms(1) by (simp add: run_checks_parallel_def)
  show ?thesis
  proof (intro exI conjI)
    show "run_checks_parallel check_functions max_workers completion = Inr (map ?f completion)"
      by (rule r)
    show "length (map ?f completion) = ?n" by (simp only: length_map len)
    show "mset (map ?f completion) = mset (map collect_result check_functions)" by (rule ms)
  qed
qed

lemma run_all_checks_parallel_completes:
  assumes "1 < length check_functions" and "0 < max_workers"
    and "completion_order (length check_functions) completion"
  shows "\<exists>results.
           mset results = mset (map collect_result check_functions) \<and>
           run_all_checks check_functions True max_workers completion =
             \<lparr>individual_checks = legacy_results results,
              overall_statistics = calculate_overall_score results,
              metadata = Some \<lparr>total_processing_time = 0, parallel_execution = True,
                               max_workers_used = max_workers\<rparr>,
              error = None\<rparr>"
proof -
  from parallel_results_collected [OF assms(2,3)] obtain results where
    r: "run_checks_parallel check_functions max_workers completion = Inr results"
    and m: "mset results = mset (map collect_result check_functions)"
    by blast
  have "run_all_checks check_functions True max_workers completion =
             \<lparr>individual_checks = legacy_results results,
              overall_statistics = calculate_overall_score results,
              metadata = Some \<lparr>total_processing_time = 0, parallel_execution = True,
                               max_workers_used = max_workers\<rparr>,
              error = None\<rparr>"
    using assms(1) r by (simp add: run_all_checks_def)
  with m show ?thesis by blast
qed

lemma field_compliance_errors_fail:
  assumes "errors (check_field_compliance field_name document_value excel_values) \<noteq> []"
  shows "\<not> passed (check_field_compliance field_name document_value excel_values) \<and>
         score (check_field_compliance field_name document_value excel_values) = 0"
  using assms
  by (auto simp: check_field_compliance_def Let_def split: if_splits sum.splits prod.splits)

text \<open>
  C6.  With a pool of at least one worker and whatever the order in which the checks
  complete, \<open>_run_checks_parallel\<close> returns a list of results and raises nothing; the
  list holds one result per submitted check, namely, up to order, what
  \<open>collect_result\<close> makes of each check.  For a check that raised this is the result
  with \<open>passed\<close> false, score 0 and the message of the exception as its one error; for a
  check that returned a result it is that result, unchanged.  \<open>run_all_checks\<close>, run in
  parallel on more than one check, then returns the report built from these results,
  without the \<open>error\<close> key.  \<open>_check_field_compliance\<close> likewise returns a result for
  every input, and whenever that result carries an error it is failed with score 0.
\<close>

theorem check_failure_isolated:
  "(0 < max_workers \<and> completion_order (length check_functions) completion \<longrightarrow>
      (\<exists>results.
         run_checks_parallel check_functions max_workers completion = Inr results \<and>
         length results = length check_functions \<and>
         mset results = mset (map collect_result check_functions))) \<and>
   (1 < length check_functions \<and> 0 < max_workers \<and>
    completion_order (length check_functions) completion \<longrightarrow>
      (\<exists>results.
         mset results = mset (map collect_result check_functions) \<and>
         run_all_checks check_functions True max_workers completion =
           \<lparr>individual_checks = legacy_results results,
            overall_statistics = calculate_overall_score results,
            metadata = Some \<lparr>total_processing_time = 0, parallel_execution = True,
                             max_workers_used = max_workers\<rparr>,
            error = None\<rparr>)) \<and>
   collect_result (name, Raises e) =
     \<lparr>check_name = name, passed = False, score = 0,
      details = [(''error'', PStr (error_str e))], errors = [error_str e]\<rparr> \<and>
   errors (collect_result (name, Raises e)) \<noteq> [] \<and>
   collect_result (name, Returns result) = result \<and>
   (errors (check_field_compliance field_name document_value excel_values) \<noteq> [] \<longrightarrow>
      \<not> passed (check_field_compliance field_name document_value excel_values) \<and>
      score (check_field_compliance field_name document_value excel_values) = 0)"
  using parallel_results_collected [of max_workers check_functions completion]
    run_all_checks_parallel_completes [of check_functions max_workers completion]
    field_compliance_errors_fail [of field_name document_value excel_values]
  by (simp add: failed_result_def)

text \<open>
  C6, at two checks of which the first raises and completes last: both results are
  collected, the failed one for the check that raised.
\<close>

theorem check_failure_isolated_witness:
  "0 < (4 :: int) \<and> completion_order 2 [1, 0] \<and>
   run_checks_parallel
     [(''check_a'', Raises (RuntimeError ''boom'')),
      (''check_b'', Returns \<lparr>check_name = ''check_b'', passed = True, score = 1,
                              details = [], errors = []\<rparr>)]
     4 [1, 0]
   = Inr [\<lparr>check_name = ''check_b'', passed = True, score = 1, details = [], errors = []\<rparr>,
          \<lparr>check_name = ''check_a'', passed = False, score = 0,
           details = [(''error'', PStr ''boom'')], errors = [''boom'']\<rparr>]"
proof -
  let ?fs = "[(''check_a'', Raises (RuntimeError ''boom'')),
      (''check_b'', Returns \<lparr>check_name = ''check_b'', passed = True, score = 1,
                              details = [], errors = []\<rparr>)]"
  have c: "completion_order 2 [1, 0]"
    by (simp add: completion_order_def numeral_2_eq_2 add.commute)
  from check_failure_isolated [of 4 ?fs "[1, 0]" "''check_a''" "RuntimeError ''boom''"]
  have a: "collect_result (''check_a'', Raises (RuntimeError ''boom'')) =
     \<lparr>check_name = ''check_a'', passed = False, score = 0,
      details = [(''error'', PStr (error_str (RuntimeError ''boom'')))],
      errors = [error_str (RuntimeError ''boom'')]\<rparr>"
    by blast
  have "run_checks_parallel ?fs 4 [1, 0]
     = Inr [collect_result (?fs ! 1), collect_result (?fs ! 0)]"
    by (simp add: run_checks_parallel_def)
  then have "run_checks_parallel ?fs 4 [1, 0]
     = Inr [\<lparr>check_name = ''check_b'', passed = True, score = 1, details = [], errors = []\<rparr>,
          \<lparr>check_name = ''check_a'', passed = False, score = 0,
           details = [(''error'', PStr ''boom'')], errors = [''boom'']\<rparr>]"
    using a by simp
  then show ?thesis using c by simp
qed

text \<open>
  The sequential branch of \<open>run_all_checks\<close>, taken when \<open>parallel\<close> is false or there is
  a single check, calls the checks in a list comprehension: a check that raised would end
  it and the outer \<open>except\<close> would return the report of level \<open>Error\<close>.  (Every check of
  the two checkers catches its own exceptions and the application runs them in parallel.)
\<close>

lemma run_all_checks_sequential_branch:
  "run_all_checks
     [(''check_a'', Raises (RuntimeError ''boom'')),
      (''check_b'', Returns \<lparr>check_name = ''check_b'', passed = True, score = 1,
                              details = [], errors = []\<rparr>)]
     False 4 [0, 1]
   = error_report (RuntimeError ''boom'')"
  by (simp add: run_all_checks_def)

section \<open>Properties of the aggregator\<close>

lemma individual_scores_map_of:
  "foldl (\<lambda>m result. m(check_name result \<mapsto> score result)) m0 results =
     m0 ++ map_of (rev (map (\<lambda>r. (check_name r, score r)) results))"
proof (induction results arbitrary: m0)
  case Nil
  show ?case by simp
next
  case (Cons r rs)
  let ?f = "\<lambda>m result. m(check_name result \<mapsto> score result)"
  have "foldl ?f m0 (r # rs) = foldl ?f (m0(check_name r \<mapsto> score r)) rs"
    by (simp only: foldl.simps)
  also have "\<dots> = m0(check_name r \<mapsto> score r) ++ map_of (rev (map (\<lambda>r. (check_name r, score r)) rs))"
    by (rule Cons.IH)
  also have "\<dots> = m0 ++ map_of (rev (map (\<lambda>r. (check_name r, score r)) (r # rs)))"
    by simp
  finally show ?case .
qed

lemma individual_scores_perm:
  assumes "mset xs = mset ys" and "distinct (map check_name xs)"
  shows "foldl (\<lambda>m result. m(check_name result \<mapsto> score result)) Map.empty xs =
         foldl (\<lambda>m result. m(check_name result \<mapsto> score result)) Map.empty ys"
proof -
  let ?kv = "\<lambda>r. (check_name r, score r)"
  have m: "mset (map check_name xs) = mset (map check_name ys)"
    using assms(1) by (metis mset_map)
  have dy: "distinct (map check_name ys)"
    using assms(2) m by (metis mset_eq_imp_distinct_iff)
  have "set xs = set ys" using assms(1) by (rule mset_eq_setD)
  then have s: "set (rev (map ?kv xs)) = set (rev (map ?kv ys))" by simp
  have d1: "distinct (map fst (rev (map ?kv xs)))"
    using assms(2) by (simp add: rev_map [symmetric] comp_def)
  have d2: "distinct (map fst (rev (map ?kv ys)))"
    using dy by (simp add: rev_map [symmetric] comp_def)
  have "map_of (rev (map ?kv xs)) = map_of (rev (map ?kv ys))"
    using map_of_inject_set [OF d1 d2] s by blast
  then show ?thesis by (simp add: individual_scores_map_of)
qed

lemma passed_count_perm:
  assumes "mset xs = mset ys"
  shows "length (filter passed xs) = length (filter passed ys)"
proof -
  from assms have "mset (filter passed xs) = mset (filter passed ys)" by simp
  then show ?thesis by (metis size_mset)
qed

lemma docx_results_scores:
  "map score docx_results = [0, fl64 (2 / 10), 1, fl64 (2 / 10), fl64 (6 / 10)] \<and>
   map score docx_results_reordered = [0, fl64 (2 / 10), 1, fl64 (6 / 10), fl64 (2 / 10)]"
  by (simp add: docx_results_def docx_results_reordered_def)

lemma docx_results_perm:
  "mset docx_results = mset docx_results_reordered \<and> distinct (map check_name docx_results)"
  by (simp add: docx_results_def docx_results_reordered_def)

lemma docx_results_means:
  "np_mean [0, fl64 (2 / 10), 1, fl64 (2 / 10), fl64 (6 / 10)] = fl64 (4 / 10) \<and>
   np_mean [0, fl64 (2 / 10), 1, fl64 (6 / 10), fl64 (2 / 10)] < fl64 (4 / 10) \<and>
   np_mean [0, fl64 (2 / 10), 1, fl64 (6 / 10), fl64 (2 / 10)] < 4 / 10 \<and>
   sum_list [0, fl64 (2 / 10), 1, fl64 (6 / 10), fl64 (2 / 10)] / 5 = 4 / 10 \<and>
   fl64 (4 / 10) < fl64 (6 / 10) \<and> fl64 (6 / 10) < fl64 (9 / 10)"
  by code_simp

text \<open>
  The same two means result when the reduction takes the first score as its initial
  value and adds the pairwise sum of the others to it.
\<close>

lemma docx_results_means_first_initial:
  "fdiv (fadd 0 (pairwise_sum [fl64 (2 / 10), 1, fl64 (2 / 10), fl64 (6 / 10)])) 5 = fl64 (4 / 10) \<and>
   fdiv (fadd 0 (pairwise_sum [fl64 (2 / 10), 1, fl64 (6 / 10), fl64 (2 / 10)])) 5 < fl64 (4 / 10)"
  by code_simp

lemma overall_score_nonempty:
  assumes "results \<noteq> []"
  shows "overall_score (calculate_overall_score results) = np_mean (map score results) \<and>
         compliance_level (calculate_overall_score results)
           = (if np_mean (map score results) \<ge> fl64 (9 / 10) then ''Fully Compliant''
              else if np_mean (map score results) \<ge> fl64 (6 / 10) then ''Compliant''
              else if np_mean (map score results) \<ge> fl64 (4 / 10) then ''Partially Compliant''
              else ''Non-compliant'')"
  using assms by (simp add: calculate_overall_score_def Let_def COMPLIANCE_THRESHOLD_def)

text \<open>
  C1, as stated, fails: the overall score is a float64 sum taken in list order.  The five
  results of the document checker give a mean of exactly the float 0.4 and the level
  \<open>Partially Compliant\<close>; with the last two results swapped the sum rounds differently,
  the mean is the float below 0.4 and the level is \<open>Non-compliant\<close>.
\<close>

theorem overall_score_order_counterexample:
  "mset docx_results = mset docx_results_reordered \<and>
   distinct (map check_name docx_results) \<and>
   overall_score (calculate_overall_score docx_results) = fl64 (4 / 10) \<and>
   compliance_level (calculate_overall_score docx_results) = ''Partially Compliant'' \<and>
   overall_score (calculate_overall_score docx_results_reordered) < fl64 (4 / 10) \<and>
   compliance_level (calculate_overall_score docx_results_reordered) = ''Non-compliant''"
proof -
  have a: "docx_results \<noteq> []" and b: "docx_results_reordered \<noteq> []"
    by (simp_all add: docx_results_def docx_results_reordered_def)
  show ?thesis
    using overall_score_nonempty [OF a] overall_score_nonempty [OF b]
      docx_results_scores docx_results_perm docx_results_means
    by simp
qed

text \<open>
  C1, amended.  For results with pairwise distinct check names, the counts of passed and
  of all checks, the pass rate and the score of each check are the same for every
  permutation of the list.  (The overall score and the level are not: see above.)
\<close>

theorem report_counts_permutation_invariant:
  assumes "mset results = mset results'" and "distinct (map check_name results)"
  shows "passed_checks (calculate_overall_score results)
           = passed_checks (calculate_overall_score results') \<and>
         total_checks (calculate_overall_score results)
           = total_checks (calculate_overall_score results') \<and>
         pass_rate (calculate_overall_score results)
           = pass_rate (calculate_overall_score results') \<and>
         individual_scores (calculate_overall_score results)
           = individual_scores (calculate_overall_score results')"
proof -
  have len: "length results = length results'"
    using assms(1) by (metis size_mset)
  then have e: "results = [] \<longleftrightarrow> results' = []" by auto
  show ?thesis
    using e len passed_count_perm [OF assms(1)] individual_scores_perm [OF assms]
    by (simp add: calculate_overall_score_def Let_def)
qed

text \<open>C1, amended, at the five results of the document checker in both orders.\<close>

theorem report_counts_permutation_invariant_witness:
  "mset docx_results = mset docx_results_reordered \<and>
   distinct (map check_name docx_results) \<and>
   passed_checks (calculate_overall_score docx_results)
     = passed_checks (calculate_overall_score docx_results_reordered) \<and>
   individual_scores (calculate_overall_score docx_results)
     = individual_scores (calculate_overall_score docx_results_reordered)"
proof -
  have m: "mset docx_results = mset docx_results_reordered"
    and d: "distinct (map check_name docx_results)"
    using docx_results_perm by simp_all
  from report_counts_permutation_invariant [OF m d] m d show ?thesis by blast
qed

text \<open>
  C2, as stated, fails: the overall score is not the arithmetic mean of the scores.  For
  the reordered results of the document checker the scores add up to exactly 2, so their
  arithmetic mean is 0.4, which the claim bands as \<open>Partially Compliant\<close>; the code
  returns the float below 0.4 and \<open>Non-compliant\<close>.
\<close>

theorem overall_score_mean_counterexample:
  "sum_list (map score docx_results_reordered) / real (length docx_results_reordered) = 4 / 10 \<and>
   overall_score (calculate_overall_score docx_results_reordered) < 4 / 10 \<and>
   compliance_level (calculate_overall_score docx_results_reordered) = ''Non-compliant''"
proof -
  have b: "docx_results_reordered \<noteq> []"
    and l: "length docx_results_reordered = 5"
    by (simp_all add: docx_results_reordered_def)
  show ?thesis
    using overall_score_nonempty [OF b] docx_results_scores docx_results_means l
    by simp
qed

text \<open>
  C2, amended.  For a non-empty list of results the overall score is the float64 mean as
  \<open>np.mean\<close> computes it, the sum of the scores accumulated in float64 and divided by
  their number, and the level bands that value: \<open>Fully Compliant\<close> from the float 0.9,
  \<open>Compliant\<close> from the float 0.6, \<open>Partially Compliant\<close> from the float 0.4 and
  \<open>Non-compliant\<close> below.  Scores 1.0, 0.0, 0.5, 1.0 give 0.625 and \<open>Compliant\<close>; a single
  score of 0.6 is \<open>Compliant\<close> and one of 0.9 is \<open>Fully Compliant\<close>.
\<close>

theorem overall_score_float_mean_and_bands:
  "(results \<noteq> [] \<longrightarrow>
      overall_score (calculate_overall_score results) = np_mean (map score results) \<and>
      compliance_level (calculate_overall_score results)
        = (if overall_score (calculate_overall_score results) \<ge> fl64 (9 / 10) then ''Fully Compliant''
           else if overall_score (calculate_overall_score results) \<ge> fl64 (6 / 10) then ''Compliant''
           else if overall_score (calculate_overall_score results) \<ge> fl64 (4 / 10) then ''Partially Compliant''
           else ''Non-compliant'')) \<and>
   (length results < 8 \<longrightarrow>
      np_mean (map score results)
        = fdiv (fadd 0 (foldl fadd 0 (map score results))) (real (length results))) \<and>
   (map score results = [1, 0, 1 / 2, 1] \<longrightarrow>
      overall_score (calculate_overall_score results) = 625 / 1000 \<and>
      compliance_level (calculate_overall_score results) = ''Compliant'') \<and>
   (map score results = [fl64 (6 / 10)] \<longrightarrow>
      compliance_level (calculate_overall_score results) = ''Compliant'') \<and>
   (map score results = [fl64 (9 / 10)] \<longrightarrow>
      compliance_level (calculate_overall_score results) = ''Fully Compliant'')"
proof (intro conjI impI)
  assume "results \<noteq> []"
  then show "overall_score (calculate_overall_score results) = np_mean (map score results)"
    and "compliance_level (calculate_overall_score results)
        = (if overall_score (calculate_overall_score results) \<ge> fl64 (9 / 10) then ''Fully Compliant''
           else if overall_score (calculate_overall_score results) \<ge> fl64 (6 / 10) then ''Compliant''
           else if overall_score (calculate_overall_score results) \<ge> fl64 (4 / 10) then ''Partially Compliant''
           else ''Non-compliant'')"
    using overall_score_nonempty [of results] by simp_all
next
  assume "length results < 8"
  then show "np_mean (map score results)
        = fdiv (fadd 0 (foldl fadd 0 (map score results))) (real (length results))"
    by (simp add: np_mean_def np_add_reduce_def)
next
  have m: "np_mean [1, 0, 1 / 2, 1] = 625 / 1000 \<and> fl64 (6 / 10) \<le> 625 / 1000 \<and>
           \<not> fl64 (9 / 10) \<le> 625 / 1000"
    by code_simp
  assume s: "map score results = [1, 0, 1 / 2, 1]"
  then have "results \<noteq> []" by auto
  from overall_score_nonempty [OF this] s m
  show "overall_score (calculate_overall_score results) = 625 / 1000"
    and "compliance_level (calculate_overall_score results) = ''Compliant''"
    by simp_all
next
  have m: "fl64 (6 / 10) \<le> np_mean [fl64 (6 / 10)] \<and> \<not> fl64 (9 / 10) \<le> np_mean [fl64 (6 / 10)]"
    by code_simp
  assume s: "map score results = [fl64 (6 / 10)]"
  then have "results \<noteq> []" by auto
  from overall_score_nonempty [OF this] s m
  show "compliance_level (calculate_overall_score results) = ''Compliant''"
    by simp
next
  have m: "fl64 (9 / 10) \<le> np_mean [fl64 (9 / 10)]"
    by code_simp
  assume s: "map score results = [fl64 (9 / 10)]"
  then have "results \<noteq> []" by auto
  from overall_score_nonempty [OF this] s m
  show "compliance_level (calculate_overall_score results) = ''Fully Compliant''"
    by simp
qed

text \<open>C2, amended, at four results with the scores 1.0, 0.0, 0.5 and 1.0.\<close>

theorem overall_score_float_mean_and_bands_witness:
  "overall_score (calculate_overall_score
     [\<lparr>check_name = ''a'', passed = True, score = 1, details = [], errors = []\<rparr>,
      \<lparr>check_name = ''b'', passed = False, score = 0, details = [], errors = []\<rparr>,
      \<lparr>check_name = ''c'', passed = False, score = 1 / 2, details = [], errors = []\<rparr>,
      \<lparr>check_name = ''d'', passed = True, score = 1, details = [], errors = []\<rparr>]) = 625 / 1000 \<and>
   compliance_level (calculate_overall_score
     [\<lparr>check_name = ''a'', passed = True, score = 1, details = [], errors = []\<rparr>,
      \<lparr>check_name = ''b'', passed = False, score = 0, details = [], errors = []\<rparr>,
      \<lparr>check_name = ''c'', passed = False, score = 1 / 2, details = [], errors = []\<rparr>,
      \<lparr>check_name = ''d'', passed = True, score = 1, details = [], errors = []\<rparr>]) = ''Compliant''"
proof -
  let ?rs = "[\<lparr>check_name = ''a'', passed = True, score = 1, details = [], errors = []\<rparr>,
          \<lparr>check_name = ''b'', passed = False, score = 0, details = [], errors = []\<rparr>,
          \<lparr>check_name = ''c'', passed = False, score = 1 / 2, details = [], errors = []\<rparr>,
          \<lparr>check_name = ''d'', passed = True, score = 1, details = [], errors = []\<rparr>]"
  have s: "map score ?rs = [1, 0, 1 / 2, 1]" by simp
  from overall_score_float_mean_and_bands [of ?rs] s show ?thesis by blast
qed

section \<open>Properties of the first-page and first-slide checks\<close>

lemma first_page_field_ok:
  assumes "excel excel_field \<noteq> Some []"
  shows "\<exists>field_result.
           first_page_field excel page (excel_field, doc_field, display_name) (n, rs) =
             Inr (if v2_field_matches excel page (excel_field, doc_field, display_name)
                  then Suc n else n,
                  rs @ [(display_name, field_result)])"
proof (cases "excel excel_field")
  case None
  then show ?thesis
    by (simp add: first_page_field_def v2_field_matches_def Let_def truthy_def)
next
  case (Some vals)
  with assms obtain v vs where "vals = v # vs" by (cases vals) auto
  with Some show ?thesis
    by (simp add: first_page_field_def v2_field_matches_def Let_def)
qed

lemma first_page_field_error:
  assumes "excel excel_field = Some []"
  shows "first_page_field excel page (excel_field, doc_field, display_name) st =
           Inl (IndexError ''list index out of range'')"
  using assms by (cases st) (simp add: first_page_field_def Let_def)

lemma for_each_first_page_ok:
  assumes "\<forall>mapping \<in> set ms. excel (fst mapping) \<noteq> Some []"
  shows "\<exists>rs'. for_each (first_page_field excel page) ms (n, rs) =
           Inr (n + length (filter (v2_field_matches excel page) ms), rs')"
  using assms
proof (induction ms arbitrary: n rs)
  case Nil
  then show ?case by simp
next
  case (Cons mapping ms)
  obtain ef df dn where mp: "mapping = (ef, df, dn)" by (cases mapping) auto
  from Cons.prems mp have ne: "excel ef \<noteq> Some []" by auto
  have "\<exists>field_result. first_page_field excel page (ef, df, dn) (n, rs) =
             Inr (if v2_field_matches excel page (ef, df, dn) then Suc n else n,
                  rs @ [(dn, field_result)])"
    using ne by (rule first_page_field_ok)
  then obtain fr where
    step: "first_page_field excel page (ef, df, dn) (n, rs) =
             Inr (if v2_field_matches excel page (ef, df, dn) then Suc n else n, rs @ [(dn, fr)])"
    by blast
  from Cons.prems have rest: "\<forall>mapping \<in> set ms. excel (fst mapping) \<noteq> Some []"
    by simp
  from Cons.IH [OF rest] obtain rs' where
    "for_each (first_page_field excel page) ms
       (if v2_field_matches excel page (ef, df, dn) then Suc n else n, rs @ [(dn, fr)]) =
     Inr ((if v2_field_matches excel page (ef, df, dn) then Suc n else n)
            + length (filter (v2_field_matches excel page) ms), rs')"
    by blast
  then show ?case using step mp by auto
qed

lemma for_each_first_page_error:
  assumes "(excel_field, doc_field, display_name) \<in> set ms" and "excel excel_field = Some []"
  shows "\<exists>e. for_each (first_page_field excel page) ms st = Inl e"
  using assms(1)
proof (induction ms arbitrary: st)
  case Nil
  then show ?case by simp
next
  case (Cons mapping ms)
  show ?case
  proof (cases "first_page_field excel page mapping st")
    case (Inl e)
    then show ?thesis by simp
  next
    case (Inr st')
    have "first_page_field excel page (excel_field, doc_field, display_name) st =
            Inl (IndexError ''list index out of range'')"
      using assms(2) by (rule first_page_field_error)
    with Inr Cons.prems have "(excel_field, doc_field, display_name) \<in> set ms" by auto
    from Cons.IH [OF this, of st'] Inr show ?thesis by simp
  qed
qed

lemma v2_threshold:
  assumes "k \<le> 6"
  shows "(fl64 (6 / 10) \<le> fdiv (real k) 6) = (4 \<le> k)"
proof -
  have c0: "\<not> fl64 (6 / 10) \<le> fdiv 0 6" by code_simp
  have c1: "\<not> fl64 (6 / 10) \<le> fdiv 1 6" by code_simp
  have c2: "\<not> fl64 (6 / 10) \<le> fdiv 2 6" by code_simp
  have c3: "\<not> fl64 (6 / 10) \<le> fdiv 3 6" by code_simp
  have c4: "fl64 (6 / 10) \<le> fdiv 4 6" by code_simp
  have c5: "fl64 (6 / 10) \<le> fdiv 5 6" by code_simp
  have c6: "fl64 (6 / 10) \<le> fdiv 6 6" by code_simp
  from assms consider "k = 0" | "k = 1" | "k = 2" | "k = 3" | "k = 4" | "k = 5" | "k = 6"
    by linarith
  then show ?thesis
    using c0 c1 c2 c3 c4 c5 c6 by cases simp_all
qed

lemma first_page_v2_ok:
  assumes "\<forall>mapping \<in> set field_mappings. excel (fst mapping) \<noteq> Some []"
  shows "scoreV2 (check_first_page_compliance_V2 excel page)
           = fdiv (real (length (filter (v2_field_matches excel page) field_mappings))) 6 \<and>
         passedV2 (check_first_page_compliance_V2 excel page)
           = (4 \<le> length (filter (v2_field_matches excel page) field_mappings))"
proof -
  let ?k = "length (filter (v2_field_matches excel page) field_mappings)"
  have l: "length field_mappings = 6" by (simp add: field_mappings_def)
  have "?k \<le> length field_mappings" by (rule length_filter_le)
  then have k: "?k \<le> 6" by (simp only: l)
  have "\<exists>rs'. for_each (first_page_field excel page) field_mappings (0, []) =
       Inr (0 + ?k, rs')"
    using assms by (rule for_each_first_page_ok)
  then obtain rs' where
    "for_each (first_page_field excel page) field_mappings (0, []) = Inr (?k, rs')"
    by auto
  then show ?thesis
    using v2_threshold [OF k] by (simp add: check_first_page_compliance_V2_def Let_def l)
qed

lemma first_page_v2_error:
  assumes "(excel_field, doc_field, display_name) \<in> set field_mappings" and "excel excel_field = Some []"
  shows "scoreV2 (check_first_page_compliance_V2 excel page) = 0 \<and>
         \<not> passedV2 (check_first_page_compliance_V2 excel page)"
proof -
  have "\<exists>e. for_each (first_page_field excel page) field_mappings (0, []) = Inl e"
    using assms by (rule for_each_first_page_error)
  then obtain e where
    "for_each (first_page_field excel page) field_mappings (0, []) = Inl e" by blast
  then show ?thesis by (simp add: check_first_page_compliance_V2_def Let_def)
qed

lemma first_page_modular:
  "(metadata_field_checks excel page \<noteq> [] \<longrightarrow>
      score (check_first_page_compliance py_sum excel page)
        = fdiv (py_sum (map score (metadata_field_checks excel page)))
               (real (length (metadata_field_checks excel page))) \<and>
      passed (check_first_page_compliance py_sum excel page)
        = list_all passed (metadata_field_checks excel page)) \<and>
   (metadata_field_checks excel page = [] \<longrightarrow>
      score (check_first_page_compliance py_sum excel page) = 0 \<and>
      \<not> passed (check_first_page_compliance py_sum excel page))"
  by (simp add: check_first_page_compliance_def Let_def)

lemma first_slide_modular:
  "(has_content \<longrightarrow>
      score (check_first_slide_compliance py_sum excel has_content page)
        = score (check_first_page_compliance py_sum excel page) \<and>
      passed (check_first_slide_compliance py_sum excel has_content page)
        = passed (check_first_page_compliance py_sum excel page)) \<and>
   (\<not> has_content \<longrightarrow>
      score (check_first_slide_compliance py_sum excel has_content page) = 0 \<and>
      \<not> passed (check_first_slide_compliance py_sum excel has_content page))"
  by (simp add: check_first_slide_compliance_def check_first_page_compliance_def Let_def)

text \<open>
  C5, as stated, fails on the Version 2 checker: with four of its six fields matching and
  the release and the enterprise release id different from the reference, the check
  passes, since it passes from a score of 0.6.
\<close>

theorem first_page_v2_threshold_counterexample:
  "passedV2 (check_first_page_compliance_V2 sample_excel_v2 sample_page_v2) = True \<and>
   scoreV2 (check_first_page_compliance_V2 sample_excel_v2 sample_page_v2) = fdiv 4 6 \<and>
   v2_field_matches sample_excel_v2 sample_page_v2 (''release'', ''release'', ''Release'') = False"
proof (intro conjI)
  show "passedV2 (check_first_page_compliance_V2 sample_excel_v2 sample_page_v2) = True"
    by code_simp
  show "scoreV2 (check_first_page_compliance_V2 sample_excel_v2 sample_page_v2) = fdiv 4 6"
    by code_simp
  show "v2_field_matches sample_excel_v2 sample_page_v2 (''release'', ''release'', ''Release'') = False"
    by code_simp
qed

text \<open>
  C5, amended.  In the modular checkers the first-page check, when the reference record
  has at least one of the four fields, scores the float64 mean of the scores of its field
  checks (their \<open>sum\<close> divided by their number) and passes iff every field check passed;
  with no field to check it scores 0 and fails.  The first-slide check does the same when
  the slide has content and scores 0 and fails when it has none.  The Version 2 check
  counts the matching fields among its six: when no reference list is empty it scores
  that count divided by 6 and passes iff at least four fields match (score at least 0.6);
  an empty reference list makes it score 0 and fail.
\<close>

theorem first_page_compliance_spec:
  "(metadata_field_checks excel page \<noteq> [] \<longrightarrow>
      score (check_first_page_compliance py_sum excel page)
        = fdiv (py_sum (map score (metadata_field_checks excel page)))
               (real (length (metadata_field_checks excel page))) \<and>
      passed (check_first_page_compliance py_sum excel page)
        = list_all passed (metadata_field_checks excel page)) \<and>
   (metadata_field_checks excel page = [] \<longrightarrow>
      score (check_first_page_compliance py_sum excel page) = 0 \<and>
      \<not> passed (check_first_page_compliance py_sum excel page)) \<and>
   (has_content \<longrightarrow>
      score (check_first_slide_compliance py_sum excel has_content page)
        = score (check_first_page_compliance py_sum excel page) \<and>
      passed (check_first_slide_compliance py_sum excel has_content page)
        = passed (check_first_page_compliance py_sum excel page)) \<and>
   (\<not> has_content \<longrightarrow>
      score (check_first_slide_compliance py_sum excel has_content page) = 0 \<and>
      \<not> passed (check_first_slide_compliance py_sum excel has_content page)) \<and>
   ((\<forall>mapping \<in> set field_mappings. excel (fst mapping) \<noteq> Some []) \<longrightarrow>
      scoreV2 (check_first_page_compliance_V2 excel page)
        = fdiv (real (length (filter (v2_field_matches excel page) field_mappings))) 6 \<and>
      passedV2 (check_first_page_compliance_V2 excel page)
        = (4 \<le> length (filter (v2_field_matches excel page) field_mappings))) \<and>
   ((\<exists>mapping \<in> set field_mappings. excel (fst mapping) = Some []) \<longrightarrow>
      scoreV2 (check_first_page_compliance_V2 excel page) = 0 \<and>
      \<not> passedV2 (check_first_page_compliance_V2 excel page))"
proof -
  have v2_error: "scoreV2 (check_first_page_compliance_V2 excel page) = 0 \<and>
      \<not> passedV2 (check_first_page_compliance_V2 excel page)"
    if "\<exists>mapping \<in> set field_mappings. excel (fst mapping) = Some []"
  proof -
    from that obtain ef df dn where "(ef, df, dn) \<in> set field_mappings" "excel ef = Some []"
      by auto
    then show ?thesis by (rule first_page_v2_error)
  qed
  show ?thesis
    using first_page_modular [of excel page py_sum]
      first_slide_modular [of has_content py_sum excel page]
      first_page_v2_ok [of excel page] v2_error
    by blast
qed

text \<open>
  C5, amended, on the sample page: three of four fields match exactly and the task id is
  missing, so the score is 0.75 and the check fails; and on the Version 2 sample, where
  four of the six fields match and the check passes.
\<close>

theorem first_page_compliance_spec_witness:
  "metadata_field_checks sample_excel sample_page \<noteq> [] \<and>
   score (check_first_page_compliance float_sum sample_excel sample_page) = 3 / 4 \<and>
   passed (check_first_page_compliance float_sum sample_excel sample_page) = False \<and>
   list_all (\<lambda>mapping. sample_excel_v2 (fst mapping) \<noteq> Some []) field_mappings \<and>
   length (filter (v2_field_matches sample_excel_v2 sample_page_v2) field_mappings) = 4 \<and>
   passedV2 (check_first_page_compliance_V2 sample_excel_v2 sample_page_v2) = True"
proof -
  have s: "map score (metadata_field_checks sample_excel sample_page) = [1, 1, 1, 0]"
    by code_simp
  have p: "map passed (metadata_field_checks sample_excel sample_page) = [True, True, True, False]"
    by code_simp
  have f: "fdiv (float_sum [1, 1, 1, 0]) 4 = 3 / 4" by code_simp
  from s have ne: "metadata_field_checks sample_excel sample_page \<noteq> []" by auto
  from s have l: "length (metadata_field_checks sample_excel sample_page) = 4"
    by (auto dest: arg_cong [where f = length])
  have a: "list_all passed (metadata_field_checks sample_excel sample_page)
           = list_all (\<lambda>b. b) (map passed (metadata_field_checks sample_excel sample_page))"
    by (simp add: list_all_iff)
  from first_page_compliance_spec [of sample_excel sample_page float_sum] ne
  have "score (check_first_page_compliance float_sum sample_excel sample_page)
          = fdiv (float_sum (map score (metadata_field_checks sample_excel sample_page)))
                 (real (length (metadata_field_checks sample_excel sample_page)))"
    and "passed (check_first_page_compliance float_sum sample_excel sample_page)
          = list_all passed (metadata_field_checks sample_excel sample_page)"
    by blast+
  then have modular:
    "score (check_first_page_compliance float_sum sample_excel sample_page) = 3 / 4 \<and>
     passed (check_first_page_compliance float_sum sample_excel sample_page) = False"
    by (simp add: s l a p f)
  have h: "list_all (\<lambda>mapping. sample_excel_v2 (fst mapping) \<noteq> Some []) field_mappings"
    by code_simp
  then have h': "\<forall>mapping \<in> set field_mappings. sample_excel_v2 (fst mapping) \<noteq> Some []"
    by (simp only: list_all_iff)
  have k: "length (filter (v2_field_matches sample_excel_v2 sample_page_v2) field_mappings) = 4"
    by code_simp
  from first_page_compliance_spec [of sample_excel_v2 sample_page_v2 float_sum] h'
  have "passedV2 (check_first_page_compliance_V2 sample_excel_v2 sample_page_v2)
          = (4 \<le> length (filter (v2_field_matches sample_excel_v2 sample_page_v2) field_mappings))"
    by blast
  then have v2: "passedV2 (check_first_page_compliance_V2 sample_excel_v2 sample_page_v2) = True"
    by (simp only: k) simp
  from ne modular h k v2 show ?thesis by blast
qed

section \<open>Properties of the table-of-contents checks\<close>

lemma length_filter_keys:
  "length (filter (\<lambda>(section_key, name, description). f section_key) xs)
     = length (filter f (map fst xs))"
  by (induction xs) auto

lemma length_REQUIRED_TOC_SECTIONS: "length REQUIRED_TOC_SECTIONS = 5"
  by (simp add: REQUIRED_TOC_SECTIONS_def)

lemma toc_percentage:
  assumes "k \<le> 5"
  shows "fdiv (fmul (fdiv (real k) 5) 100) 100 = fl64 (real k / 5) \<and>
         (fl64 (6 / 10) \<le> fl64 (real k / 5)) = (3 \<le> k)"
proof -
  have c0: "fdiv (fmul (fdiv 0 5) 100) 100 = fl64 (0 / 5) \<and> \<not> fl64 (6 / 10) \<le> fl64 (0 / 5)" by code_simp
  have c1: "fdiv (fmul (fdiv 1 5) 100) 100 = fl64 (1 / 5) \<and> \<not> fl64 (6 / 10) \<le> fl64 (1 / 5)" by code_simp
  have c2: "fdiv (fmul (fdiv 2 5) 100) 100 = fl64 (2 / 5) \<and> \<not> fl64 (6 / 10) \<le> fl64 (2 / 5)" by code_simp
  have c3: "fdiv (fmul (fdiv 3 5) 100) 100 = fl64 (3 / 5) \<and> fl64 (6 / 10) \<le> fl64 (3 / 5)" by code_simp
  have c4: "fdiv (fmul (fdiv 4 5) 100) 100 = fl64 (4 / 5) \<and> fl64 (6 / 10) \<le> fl64 (4 / 5)" by code_simp
  have c5: "fdiv (fmul (fdiv 5 5) 100) 100 = fl64 (5 / 5) \<and> fl64 (6 / 10) \<le> fl64 (5 / 5)" by code_simp
  from assms consider "k = 0" | "k = 1" | "k = 2" | "k = 3" | "k = 4" | "k = 5"
    by linarith
  then show ?thesis
    using c0 c1 c2 c3 c4 c5 by cases simp_all
qed

lemma toc_modular_cases:
  "score (check_table_of_contents_compliance True True) = 1 \<and>
   passed (check_table_of_contents_compliance True True) \<and>
   score (check_table_of_contents_compliance True False) = fl64 (6 / 10) \<and>
   \<not> passed (check_table_of_contents_compliance True False) \<and>
   score (check_table_of_contents_compliance False True) = fl64 (4 / 10) \<and>
   \<not> passed (check_table_of_contents_compliance False True) \<and>
   score (check_table_of_contents_compliance False False) = 0 \<and>
   \<not> passed (check_table_of_contents_compliance False False)"
  by code_simp

lemma toc_v2:
  "scoreV2 (check_table_of_contents_compliance_V2 (Some (check_table_of_contents header_found section_found)))
     = fl64 (real (length (filter section_found (map fst REQUIRED_TOC_SECTIONS)))
             / real (length REQUIRED_TOC_SECTIONS)) \<and>
   passedV2 (check_table_of_contents_compliance_V2 (Some (check_table_of_contents header_found section_found)))
     = (header_found \<and> 3 \<le> length (filter section_found (map fst REQUIRED_TOC_SECTIONS)))"
proof -
  let ?k = "length (filter section_found (map fst REQUIRED_TOC_SECTIONS))"
  have "?k \<le> length (map fst REQUIRED_TOC_SECTIONS)" by (rule length_filter_le)
  then have k: "?k \<le> 5" by (simp add: length_REQUIRED_TOC_SECTIONS)
  show ?thesis
    using toc_percentage [OF k]
    by (simp add: check_table_of_contents_compliance_V2_def check_table_of_contents_def Let_def
          length_filter_keys length_REQUIRED_TOC_SECTIONS)
qed

lemma toc_v2_all_found:
  "length (filter (\<lambda>section_key. True) (map fst REQUIRED_TOC_SECTIONS)) = 5 \<and> fl64 (5 / 5) = 1"
proof
  show "length (filter (\<lambda>section_key. True) (map fst REQUIRED_TOC_SECTIONS)) = 5"
    by (simp add: length_REQUIRED_TOC_SECTIONS)
  show "fl64 (5 / 5) = 1" by code_simp
qed

text \<open>
  C8, as stated, fails on both checkers.  In \<open>docx_compliance.py\<close> a document with the
  table of contents but without the scope section scores 0.6, not one marker of two, and
  fails although 0.6 reaches the threshold of the claim.  In Version 2 a document with
  all five required sections but without the table-of-contents header scores 1 and fails.
\<close>

theorem toc_score_counterexample:
  "score (check_table_of_contents_compliance True False) = fl64 (6 / 10) \<and>
   passed (check_table_of_contents_compliance True False) = False \<and>
   scoreV2 (check_table_of_contents_compliance_V2
             (Some (check_table_of_contents False (\<lambda>section_key. True)))) = 1 \<and>
   passedV2 (check_table_of_contents_compliance_V2
             (Some (check_table_of_contents False (\<lambda>section_key. True)))) = False"
  using toc_modular_cases toc_v2 [of False "\<lambda>section_key. True"] toc_v2_all_found
  by (simp add: length_REQUIRED_TOC_SECTIONS)

text \<open>
  C8, amended.  In \<open>docx_compliance.py\<close> the table-of-contents check scores 0.6 for the
  table of contents plus 0.4 for the scope section (1.0 for both) and passes iff both are
  present.  In Version 2 the score is the number of required sections found divided by
  the number of required sections, and the check passes iff the table-of-contents header
  is present and at least three of the five sections are found (score at least 0.6);
  without table-of-contents data it scores 0 and fails.
\<close>

theorem toc_compliance_spec:
  "score (check_table_of_contents_compliance has_toc has_scope_section)
     = (if has_toc \<and> has_scope_section then 1
        else if has_toc then fl64 (6 / 10)
        else if has_scope_section then fl64 (4 / 10)
        else 0) \<and>
   passed (check_table_of_contents_compliance has_toc has_scope_section)
     = (has_toc \<and> has_scope_section) \<and>
   scoreV2 (check_table_of_contents_compliance_V2
             (Some (check_table_of_contents header_found section_found)))
     = fl64 (real (length (filter section_found (map fst REQUIRED_TOC_SECTIONS)))
             / real (length REQUIRED_TOC_SECTIONS)) \<and>
   passedV2 (check_table_of_contents_compliance_V2
              (Some (check_table_of_contents header_found section_found)))
     = (header_found \<and> 3 \<le> length (filter section_found (map fst REQUIRED_TOC_SECTIONS))) \<and>
   (fl64 (6 / 10) \<le> scoreV2 (check_table_of_contents_compliance_V2
                                (Some (check_table_of_contents header_found section_found))))
     = (3 \<le> length (filter section_found (map fst REQUIRED_TOC_SECTIONS))) \<and>
   scoreV2 (check_table_of_contents_compliance_V2 None) = 0 \<and>
   passedV2 (check_table_of_contents_compliance_V2 None) = False"
proof -
  let ?k = "length (filter section_found (map fst REQUIRED_TOC_SECTIONS))"
  have "?k \<le> length (map fst REQUIRED_TOC_SECTIONS)" by (rule length_filter_le)
  then have k: "?k \<le> 5" by (simp add: length_REQUIRED_TOC_SECTIONS)
  have m: "score (check_table_of_contents_compliance has_toc has_scope_section)
     = (if has_toc \<and> has_scope_section then 1
        else if has_toc then fl64 (6 / 10)
        else if has_scope_section then fl64 (4 / 10)
        else 0) \<and>
   passed (check_table_of_contents_compliance has_toc has_scope_section)
     = (has_toc \<and> has_scope_section)"
    using toc_modular_cases by (cases has_toc; cases has_scope_section) simp_all
  have n: "scoreV2 (check_table_of_contents_compliance_V2 None) = 0 \<and>
           passedV2 (check_table_of_contents_compliance_V2 None) = False"
    by (simp add: check_table_of_contents_compliance_V2_def fdiv_def fl64_def)
  show ?thesis
    using m n toc_v2 [of header_found section_found] toc_percentage [OF k]
    by (simp add: length_REQUIRED_TOC_SECTIONS)
qed

end
